theory Spec2Isabelle
  imports Complex_Main "HOL-Library.Multiset" "HOL-Library.Sublist" "HOL-Library.AList"
    "HOL-Library.Char_ord" "HOL-Library.List_Lexorder"
begin

section \<open>Values\<close>

text \<open>
  The helpers of \<^verbatim>\<open>paprika_helpers.py\<close> work on the values that \<^verbatim>\<open>response.json()\<close>
  produces: \<^verbatim>\<open>None\<close>, booleans, unbounded integers, floats, strings, lists and
  dictionaries with string keys.

  A float is a binary64 number: a finite value, kept as the rational it denotes, one of
  the two infinities, or NaN. Negative zero is identified with zero: no helper modelled
  here tells the two apart (they compare equal, and a division by either raises).
  Strings are ASCII byte strings. A dictionary is an association list in insertion
  order; the first binding of a key is the one in force.
\<close>

datatype num = Fin rat | PInf | NInf | NaN

datatype json =
    JNone
  | JBool bool
  | JInt int
  | JFloat num
  | JStr string
  | JList "json list"
  | JDict "(string \<times> json) list"

text \<open>
  The exceptions the helpers can raise. \<open>Unmodelled\<close> is not a Python exception: it
  marks the two places where Python goes on with a value that this development does not
  describe (the order that \<^verbatim>\<open>sorted\<close> gives to 64 items or more whose keys no linear
  order compares, and the complex result of a negative float to the power one half).
\<close>

datatype error =
    ValueError
  | TypeError
  | OverflowError
  | ZeroDivisionError
  | AttributeError
  | KeyError
  | Unmodelled

definition bindE :: "error + 'a \<Rightarrow> ('a \<Rightarrow> error + 'b) \<Rightarrow> error + 'b" where
  "bindE m f = (case m of Inl e \<Rightarrow> Inl e | Inr x \<Rightarrow> f x)"

fun mapE :: "('a \<Rightarrow> error + 'b) \<Rightarrow> 'a list \<Rightarrow> error + 'b list" where
  "mapE f [] = Inr []"
| "mapE f (x # xs) = bindE (f x) (\<lambda>y. bindE (mapE f xs) (\<lambda>ys. Inr (y # ys)))"

fun filterE :: "('a \<Rightarrow> error + bool) \<Rightarrow> 'a list \<Rightarrow> error + 'a list" where
  "filterE p [] = Inr []"
| "filterE p (x # xs) =
     bindE (p x) (\<lambda>b. bindE (filterE p xs) (\<lambda>ys. Inr (if b then x # ys else ys)))"

text \<open>\<^verbatim>\<open>d.get(key)\<close> and \<^verbatim>\<open>d.get(key, default)\<close> on a dictionary.\<close>

definition dict_get_default :: "(string \<times> json) list \<Rightarrow> string \<Rightarrow> json \<Rightarrow> json" where
  "dict_get_default kvs k d = (case map_of kvs k of Some v \<Rightarrow> v | None \<Rightarrow> d)"

definition dict_get :: "(string \<times> json) list \<Rightarrow> string \<Rightarrow> json" where
  "dict_get kvs k = dict_get_default kvs k JNone"

text \<open>\<^verbatim>\<open>item.get(key, default)\<close> on any value: only a dictionary has the method.\<close>

definition item_get :: "json \<Rightarrow> string \<Rightarrow> json \<Rightarrow> error + json" where
  "item_get item k d =
     (case item of JDict kvs \<Rightarrow> Inr (dict_get_default kvs k d) | _ \<Rightarrow> Inl AttributeError)"

text \<open>Truth value of a value, as \<^verbatim>\<open>x or 0\<close> tests it.\<close>

fun truthy :: "json \<Rightarrow> bool" where
  "truthy JNone = False"
| "truthy (JBool b) = b"
| "truthy (JInt i) = (i \<noteq> 0)"
| "truthy (JFloat f) = (f \<noteq> Fin 0)"
| "truthy (JStr s) = (s \<noteq> [])"
| "truthy (JList xs) = (xs \<noteq> [])"
| "truthy (JDict kvs) = (kvs \<noteq> [])"

text \<open>
  Iterating over a value and taking its length: a list gives its elements, a
  dictionary its keys, a string its characters; nothing else can be iterated.
\<close>

fun py_iter :: "json \<Rightarrow> error + json list" where
  "py_iter (JList xs) = Inr xs"
| "py_iter (JDict kvs) = Inr (map (\<lambda>kv. JStr (fst kv)) kvs)"
| "py_iter (JStr s) = Inr (map (\<lambda>c. JStr [c]) s)"
| "py_iter _ = Inl TypeError"

fun py_len :: "json \<Rightarrow> error + nat" where
  "py_len (JList xs) = Inr (length xs)"
| "py_len (JDict kvs) = Inr (length kvs)"
| "py_len (JStr s) = Inr (length s)"
| "py_len _ = Inl TypeError"

text \<open>The slice \<^verbatim>\<open>xs[:n]\<close> of a list; a negative \<open>n\<close> counts from the end.\<close>

definition py_take :: "int \<Rightarrow> 'a list \<Rightarrow> 'a list" where
  "py_take n xs = (if 0 \<le> n then take (nat n) xs else take (nat (int (length xs) + n)) xs)"

section \<open>Binary64 arithmetic\<close>

text \<open>
  Rounding a rational to the nearest binary64 number, ties to the even significand:
  53 bits of precision, the exponent of the unit in the last place bounded below by
  \<open>-1074\<close>, overflow to an infinity when the rounded value reaches \<open>2^1024\<close>.
\<close>

text \<open>The power \<open>2^k\<close> for an integer \<open>k\<close>, by repeated squaring.\<close>

function pow2 :: "int \<Rightarrow> rat" where
  "pow2 k =
     (if k = 0 then 1
      else if k < 0 then 1 / pow2 (- k)
      else if even k then (let h = pow2 (k div 2) in h * h)
      else 2 * pow2 (k - 1))"
  by pat_completeness auto
termination
  by (relation "measure (\<lambda>k. if k < 0 then 2 * nat (- k) + 1 else 2 * nat k)") auto

declare pow2.simps [simp del]

function ilog2 :: "int \<Rightarrow> int" where
  "ilog2 n = (if n < 2 then 0 else 1 + ilog2 (n div 2))"
  by pat_completeness auto
termination
  by (relation "measure nat") auto

declare ilog2.simps [simp del]

text \<open>For \<open>0 < q\<close>, the integer \<open>e\<close> with \<open>2^e \<le> q < 2^(e+1)\<close>.\<close>

definition floor_log2 :: "rat \<Rightarrow> int" where
  "floor_log2 q =
     (if 1 \<le> q then ilog2 \<lfloor>q\<rfloor> else - (1 + ilog2 (\<lceil>1 / q\<rceil> - 1)))"

definition round_half_even :: "rat \<Rightarrow> int" where
  "round_half_even q =
     (let f = \<lfloor>q\<rfloor>; d = q - of_int f
      in if d < 1 / 2 then f else if 1 / 2 < d then f + 1 else if even f then f else f + 1)"

definition round_double :: "rat \<Rightarrow> num" where
  "round_double q =
     (if q = 0 then Fin 0
      else
        let a = \<bar>q\<bar>;
            u = pow2 (max (floor_log2 a) (- 1022) - 52);
            r = of_int (round_half_even (a / u)) * u
        in if 1024 \<le> floor_log2 r then (if 0 < q then PInf else NInf)
           else Fin (if 0 < q then r else - r))"

text \<open>Integer square root, and the square root of a positive rational rounded to binary64.\<close>

function isqrt :: "int \<Rightarrow> int" where
  "isqrt n =
     (if n < 4 then (if n \<le> 0 then 0 else 1)
      else let r = 2 * isqrt (n div 4) in if (r + 1) * (r + 1) \<le> n then r + 1 else r)"
  by pat_completeness auto
termination
  by (relation "measure nat") auto

declare isqrt.simps [simp del]

definition sqrt_double :: "rat \<Rightarrow> rat" where
  "sqrt_double q =
     (let u = pow2 (floor_log2 q div 2 - 52);
          t = q / (u * u);
          m = isqrt \<lfloor>t\<rfloor>;
          h = (of_int m + 1 / 2) * (of_int m + 1 / 2)
      in of_int (if t < h then m else if h < t then m + 1 else if even m then m else m + 1) * u)"

text \<open>The comparisons \<^verbatim>\<open><\<close>, \<^verbatim>\<open><=\<close> and \<^verbatim>\<open>==\<close> of numbers: all false on NaN.\<close>

fun num_lt :: "num \<Rightarrow> num \<Rightarrow> bool" where
  "num_lt (Fin a) (Fin b) = (a < b)"
| "num_lt (Fin a) PInf = True"
| "num_lt NInf (Fin b) = True"
| "num_lt NInf PInf = True"
| "num_lt _ _ = False"

fun num_eq :: "num \<Rightarrow> num \<Rightarrow> bool" where
  "num_eq NaN _ = False"
| "num_eq _ NaN = False"
| "num_eq x y = (x = y)"

definition num_le :: "num \<Rightarrow> num \<Rightarrow> bool" where
  "num_le x y = (num_lt x y \<or> num_eq x y)"

fun isfinite :: "num \<Rightarrow> bool" where
  "isfinite (Fin a) = True"
| "isfinite _ = False"

fun fneg :: "num \<Rightarrow> num" where
  "fneg (Fin a) = Fin (- a)"
| "fneg PInf = NInf"
| "fneg NInf = PInf"
| "fneg NaN = NaN"

fun fabs :: "num \<Rightarrow> num" where
  "fabs (Fin a) = Fin \<bar>a\<bar>"
| "fabs PInf = PInf"
| "fabs NInf = PInf"
| "fabs NaN = NaN"

fun fadd :: "num \<Rightarrow> num \<Rightarrow> num" where
  "fadd (Fin a) (Fin b) = round_double (a + b)"
| "fadd NaN _ = NaN"
| "fadd _ NaN = NaN"
| "fadd PInf NInf = NaN"
| "fadd NInf PInf = NaN"
| "fadd PInf _ = PInf"
| "fadd NInf _ = NInf"
| "fadd _ PInf = PInf"
| "fadd _ NInf = NInf"

definition fsub :: "num \<Rightarrow> num \<Rightarrow> num" where
  "fsub x y = fadd x (fneg y)"

text \<open>The sign of a number that is not NaN, and an infinity of a given sign.\<close>

fun fsign :: "num \<Rightarrow> int" where
  "fsign (Fin a) = (if 0 < a then 1 else if a < 0 then - 1 else 0)"
| "fsign PInf = 1"
| "fsign NInf = - 1"
| "fsign NaN = 0"

definition inf_of_sign :: "int \<Rightarrow> num" where
  "inf_of_sign s = (if 0 < s then PInf else if s < 0 then NInf else NaN)"

fun fmul :: "num \<Rightarrow> num \<Rightarrow> num" where
  "fmul (Fin a) (Fin b) = round_double (a * b)"
| "fmul NaN _ = NaN"
| "fmul _ NaN = NaN"
| "fmul x y = inf_of_sign (fsign x * fsign y)"

text \<open>Division of floats by a divisor that is not zero.\<close>

fun fdiv :: "num \<Rightarrow> num \<Rightarrow> num" where
  "fdiv (Fin a) (Fin b) = round_double (a / b)"
| "fdiv NaN _ = NaN"
| "fdiv _ NaN = NaN"
| "fdiv (Fin a) _ = Fin 0"
| "fdiv x (Fin b) = inf_of_sign (fsign x * fsign (Fin b))"
| "fdiv _ _ = NaN"

section \<open>Numbers of Python\<close>

text \<open>
  \<^verbatim>\<open>float(s)\<close> and \<^verbatim>\<open>int(s)\<close> on a string are the parsers of the language; they
  are parameters of the development: \<open>None\<close> stands for \<^verbatim>\<open>ValueError\<close>.
\<close>

record parsers =
  float_of_str :: "string \<Rightarrow> num option"
  int_of_str :: "string \<Rightarrow> int option"

text \<open>
  An integer becomes the nearest float; one too large for binary64 raises
  \<^verbatim>\<open>OverflowError\<close>.
\<close>

definition float_of_int :: "int \<Rightarrow> error + num" where
  "float_of_int i =
     (case round_double (of_int i) of Fin q \<Rightarrow> Inr (Fin q) | _ \<Rightarrow> Inl OverflowError)"

text \<open>\<^verbatim>\<open>float(x)\<close> and \<^verbatim>\<open>int(x)\<close>.\<close>

fun py_float :: "parsers \<Rightarrow> json \<Rightarrow> error + num" where
  "py_float P JNone = Inl TypeError"
| "py_float P (JBool b) = Inr (Fin (if b then 1 else 0))"
| "py_float P (JInt i) = float_of_int i"
| "py_float P (JFloat f) = Inr f"
| "py_float P (JStr s) = (case float_of_str P s of Some f \<Rightarrow> Inr f | None \<Rightarrow> Inl ValueError)"
| "py_float P (JList xs) = Inl TypeError"
| "py_float P (JDict kvs) = Inl TypeError"

definition trunc :: "rat \<Rightarrow> int" where
  "trunc q = (if 0 \<le> q then \<lfloor>q\<rfloor> else \<lceil>q\<rceil>)"

fun py_int :: "parsers \<Rightarrow> json \<Rightarrow> error + int" where
  "py_int P JNone = Inl TypeError"
| "py_int P (JBool b) = Inr (if b then 1 else 0)"
| "py_int P (JInt i) = Inr i"
| "py_int P (JFloat (Fin q)) = Inr (trunc q)"
| "py_int P (JFloat NaN) = Inl ValueError"
| "py_int P (JFloat _) = Inl OverflowError"
| "py_int P (JStr s) = (case int_of_str P s of Some i \<Rightarrow> Inr i | None \<Rightarrow> Inl ValueError)"
| "py_int P (JList xs) = Inl TypeError"
| "py_int P (JDict kvs) = Inl TypeError"

text \<open>
  The exact value of a number (a boolean counts as 0 or 1). Python compares an integer
  with a float by their exact values.
\<close>

fun value_of :: "json \<Rightarrow> num option" where
  "value_of (JBool b) = Some (Fin (if b then 1 else 0))"
| "value_of (JInt i) = Some (Fin (of_int i))"
| "value_of (JFloat f) = Some f"
| "value_of _ = None"

fun as_int :: "json \<Rightarrow> int option" where
  "as_int (JBool b) = Some (if b then 1 else 0)"
| "as_int (JInt i) = Some i"
| "as_int _ = None"

fun as_float :: "json \<Rightarrow> error + num" where
  "as_float (JBool b) = Inr (Fin (if b then 1 else 0))"
| "as_float (JInt i) = float_of_int i"
| "as_float (JFloat f) = Inr f"
| "as_float _ = Inl TypeError"

definition numeric :: "json \<Rightarrow> bool" where
  "numeric v = (value_of v \<noteq> None)"

text \<open>
  \<^verbatim>\<open>x >= y\<close>, \<^verbatim>\<open>x > y\<close> and \<^verbatim>\<open>x == 0\<close> with a number on the left, as every
  comparison of the helpers below has; anything but a number on the right raises.
\<close>

definition py_ge :: "num \<Rightarrow> json \<Rightarrow> error + bool" where
  "py_ge x v = (case value_of v of Some y \<Rightarrow> Inr (num_le y x) | None \<Rightarrow> Inl TypeError)"

definition py_gt :: "num \<Rightarrow> json \<Rightarrow> error + bool" where
  "py_gt x v = (case value_of v of Some y \<Rightarrow> Inr (num_lt y x) | None \<Rightarrow> Inl TypeError)"

text \<open>
  \<^verbatim>\<open>a + b\<close>, \<^verbatim>\<open>a - b\<close>, \<^verbatim>\<open>a * b\<close> and \<^verbatim>\<open>a / b\<close> on numbers: exact on two integers
  (but for the division, which rounds the exact quotient), in binary64 as soon as one
  operand is a float. Each is used below with a number on one side at least, where
  anything but a number on the other side raises \<^verbatim>\<open>TypeError\<close>.
\<close>

definition py_arith ::
  "(int \<Rightarrow> int \<Rightarrow> error + json) \<Rightarrow> (num \<Rightarrow> num \<Rightarrow> error + json) \<Rightarrow> json \<Rightarrow> json \<Rightarrow> error + json"
where
  "py_arith on_int on_float a b =
     (if \<not> numeric a \<or> \<not> numeric b then Inl TypeError
      else case (as_int a, as_int b) of
          (Some i, Some j) \<Rightarrow> on_int i j
        | _ \<Rightarrow> bindE (as_float a) (\<lambda>x. bindE (as_float b) (\<lambda>y. on_float x y)))"

definition py_add :: "json \<Rightarrow> json \<Rightarrow> error + json" where
  "py_add = py_arith (\<lambda>i j. Inr (JInt (i + j))) (\<lambda>x y. Inr (JFloat (fadd x y)))"

definition py_sub :: "json \<Rightarrow> json \<Rightarrow> error + json" where
  "py_sub = py_arith (\<lambda>i j. Inr (JInt (i - j))) (\<lambda>x y. Inr (JFloat (fsub x y)))"

definition py_mul :: "json \<Rightarrow> json \<Rightarrow> error + json" where
  "py_mul = py_arith (\<lambda>i j. Inr (JInt (i * j))) (\<lambda>x y. Inr (JFloat (fmul x y)))"

definition py_truediv :: "json \<Rightarrow> json \<Rightarrow> error + json" where
  "py_truediv = py_arith
     (\<lambda>i j. if j = 0 then Inl ZeroDivisionError
            else case round_double (of_int i / of_int j) of
                Fin q \<Rightarrow> Inr (JFloat (Fin q))
              | _ \<Rightarrow> Inl OverflowError)
     (\<lambda>x y. if y = Fin 0 then Inl ZeroDivisionError else Inr (JFloat (fdiv x y)))"

text \<open>The exact value of \<^verbatim>\<open>abs(x)\<close>, which is only ever compared below.\<close>

fun py_abs :: "json \<Rightarrow> error + num" where
  "py_abs (JBool b) = Inr (Fin (if b then 1 else 0))"
| "py_abs (JInt i) = Inr (Fin \<bar>of_int i\<bar>)"
| "py_abs (JFloat f) = Inr (fabs f)"
| "py_abs _ = Inl TypeError"

text \<open>
  \<^verbatim>\<open>x ** 2\<close> and \<^verbatim>\<open>x ** 0.5\<close> on a float. CPython answers the special cases itself
  (NaN, the infinities, 0 and 1) and hands a finite positive base other than 1 to
  \<^verbatim>\<open>pow\<close> of the C library; the base of \<^verbatim>\<open>x ** 2\<close> goes there as its absolute
  value. The results of \<^verbatim>\<open>pow\<close> depend on the library; they are a parameter of the
  development, \<open>None\<close> standing for a result out of range, which raises
  \<^verbatim>\<open>OverflowError\<close>. A negative number to the power one half is a complex number,
  a kind of value that is not modelled.
\<close>

record libm =
  pow :: "rat \<Rightarrow> rat \<Rightarrow> rat option"

definition float_pow :: "libm \<Rightarrow> rat \<Rightarrow> rat \<Rightarrow> error + num" where
  "float_pow L a w =
     (if a = 1 then Inr (Fin 1)
      else case pow L a w of Some q \<Rightarrow> Inr (Fin q) | None \<Rightarrow> Inl OverflowError)"

fun float_square :: "libm \<Rightarrow> num \<Rightarrow> error + num" where
  "float_square L (Fin a) = (if a = 0 then Inr (Fin 0) else float_pow L \<bar>a\<bar> 2)"
| "float_square L NaN = Inr NaN"
| "float_square L _ = Inr PInf"

fun float_pow_half :: "libm \<Rightarrow> num \<Rightarrow> error + num" where
  "float_pow_half L (Fin a) =
     (if a = 0 then Inr (Fin 0)
      else if a < 0 then Inl Unmodelled
      else float_pow L a (1 / 2))"
| "float_pow_half L PInf = Inr PInf"
| "float_pow_half L NInf = Inr PInf"
| "float_pow_half L NaN = Inr NaN"

text \<open>
  \<^verbatim>\<open>sum(values)\<close>: the additions from the left, starting from the integer 0 (the plain
  loop of CPython up to 3.11; later versions carry a compensation term for floats).
\<close>

fun sum_from :: "json \<Rightarrow> json list \<Rightarrow> error + json" where
  "sum_from acc [] = Inr acc"
| "sum_from acc (v # vs) = bindE (py_add acc v) (\<lambda>acc'. sum_from acc' vs)"

definition py_sum :: "json list \<Rightarrow> error + json" where
  "py_sum vs = sum_from (JInt 0) vs"

section \<open>Comparisons and sorting\<close>

text \<open>
  \<^verbatim>\<open>a == b\<close>: numbers by their exact values (a boolean is the number 0 or 1, and NaN
  differs from every number), strings, lists item by item, dictionaries key by key;
  values of different kinds differ. CPython takes an object to be equal to itself
  before it asks \<^verbatim>\<open>==\<close>; the values here are taken to be distinct objects, which
  matters for NaN only.
\<close>

definition eq_num :: "num \<Rightarrow> json \<Rightarrow> bool" where
  "eq_num x b = (case value_of b of Some y \<Rightarrow> num_eq x y | None \<Rightarrow> False)"

fun py_eq :: "json \<Rightarrow> json \<Rightarrow> bool"
  and eq_items :: "json list \<Rightarrow> json list \<Rightarrow> bool"
  and eq_entries :: "string list \<Rightarrow> (string \<times> json) list \<Rightarrow> (string \<times> json) list \<Rightarrow> bool"
where
  "py_eq JNone b = (b = JNone)"
| "py_eq (JBool x) b = eq_num (Fin (if x then 1 else 0)) b"
| "py_eq (JInt i) b = eq_num (Fin (of_int i)) b"
| "py_eq (JFloat f) b = eq_num f b"
| "py_eq (JStr s) b = (b = JStr s)"
| "py_eq (JList xs) b = (case b of JList ys \<Rightarrow> eq_items xs ys | _ \<Rightarrow> False)"
| "py_eq (JDict kvs) b =
     (case b of
        JDict kws \<Rightarrow>
          length (remdups (map fst kvs)) = length (remdups (map fst kws)) \<and>
          eq_entries [] kvs kws
      | _ \<Rightarrow> False)"
| "eq_items [] ys = (ys = [])"
| "eq_items (x # xs) ys = (case ys of [] \<Rightarrow> False | y # ys' \<Rightarrow> py_eq x y \<and> eq_items xs ys')"
| "eq_entries seen [] kws = True"
| "eq_entries seen ((k, v) # kvs) kws =
     ((k \<in> set seen \<or> (case map_of kws k of None \<Rightarrow> False | Some w \<Rightarrow> py_eq v w)) \<and>
      eq_entries (k # seen) kvs kws)"

text \<open>
  \<^verbatim>\<open>a < b\<close>: numbers by their exact values (false as soon as one is NaN), strings
  by their characters, lists by the first pair of items that differ, or by their
  lengths when there is none. Any other pair of values raises \<^verbatim>\<open>TypeError\<close>.
\<close>

definition lt_num :: "num \<Rightarrow> json \<Rightarrow> error + bool" where
  "lt_num x b = (case value_of b of Some y \<Rightarrow> Inr (num_lt x y) | None \<Rightarrow> Inl TypeError)"

fun py_lt :: "json \<Rightarrow> json \<Rightarrow> error + bool"
  and lt_items :: "json list \<Rightarrow> json list \<Rightarrow> error + bool"
where
  "py_lt JNone b = Inl TypeError"
| "py_lt (JBool x) b = lt_num (Fin (if x then 1 else 0)) b"
| "py_lt (JInt i) b = lt_num (Fin (of_int i)) b"
| "py_lt (JFloat f) b = lt_num f b"
| "py_lt (JStr s) b = (case b of JStr t \<Rightarrow> Inr (s < t) | _ \<Rightarrow> Inl TypeError)"
| "py_lt (JList xs) b = (case b of JList ys \<Rightarrow> lt_items xs ys | _ \<Rightarrow> Inl TypeError)"
| "py_lt (JDict kvs) b = Inl TypeError"
| "lt_items [] ys = Inr (ys \<noteq> [])"
| "lt_items (x # xs) ys =
     (case ys of
        [] \<Rightarrow> Inr False
      | y # ys' \<Rightarrow> if py_eq x y then lt_items xs ys' else py_lt x y)"

text \<open>
  The sort of CPython 3.11 on a list of fewer than 64 items, each paired with its key.
  \<^verbatim>\<open>count_run\<close> finds the run the list starts with: descending when the second key
  is less than the first, and then as long as each key is less than the one before;
  ascending otherwise, as long as no key is less than the one before. A descending
  run is reversed. \<^verbatim>\<open>binarysort\<close> then inserts the items that follow, one by one,
  after the last item that the new one is not less than, found by bisection. An
  exception of a comparison ends the sort.
\<close>

fun run_end :: "('k \<Rightarrow> 'k \<Rightarrow> error + bool) \<Rightarrow> bool \<Rightarrow> 'k \<Rightarrow> 'k list \<Rightarrow> nat \<Rightarrow> error + nat" where
  "run_end lt descending prev [] n = Inr n"
| "run_end lt descending prev (k # ks) n =
     bindE (lt k prev) (\<lambda>less.
       if less = descending then run_end lt descending k ks (n + 1) else Inr n)"

fun count_run :: "('k \<Rightarrow> 'k \<Rightarrow> error + bool) \<Rightarrow> 'k list \<Rightarrow> error + nat \<times> bool" where
  "count_run lt (k0 # k1 # ks) =
     bindE (lt k1 k0) (\<lambda>descending.
     bindE (run_end lt descending k1 ks 2) (\<lambda>n. Inr (n, descending)))"
| "count_run lt ks = Inr (length ks, False)"

function bisect :: "('k \<Rightarrow> 'k \<Rightarrow> error + bool) \<Rightarrow> 'k \<Rightarrow> 'k list \<Rightarrow> nat \<Rightarrow> nat \<Rightarrow> error + nat" where
  "bisect lt pivot ks l r =
     (if l < r then
        bindE (lt pivot (ks ! (l + (r - l) div 2))) (\<lambda>less.
          if less then bisect lt pivot ks l (l + (r - l) div 2)
          else bisect lt pivot ks (l + (r - l) div 2 + 1) r)
      else Inr l)"
  by pat_completeness auto

termination
  by (relation "measure (\<lambda>(lt, pivot, ks, l, r). r - l)") auto

declare bisect.simps [simp del]

fun binarysort ::
  "('k \<Rightarrow> 'k \<Rightarrow> error + bool) \<Rightarrow> ('k \<times> 'a) list \<Rightarrow> ('k \<times> 'a) list \<Rightarrow> error + ('k \<times> 'a) list" where
  "binarysort lt run [] = Inr run"
| "binarysort lt run (x # rest) =
     bindE (bisect lt (fst x) (map fst run) 0 (length run)) (\<lambda>l.
       binarysort lt (take l run @ x # drop l run) rest)"

definition list_sort ::
  "('k \<Rightarrow> 'k \<Rightarrow> error + bool) \<Rightarrow> ('k \<times> 'a) list \<Rightarrow> error + ('k \<times> 'a) list" where
  "list_sort lt kxs =
     bindE (count_run lt (map fst kxs)) (\<lambda>(n, descending).
       binarysort lt (if descending then rev (take n kxs) else take n kxs) (drop n kxs))"

text \<open>
  The keys that a linear order compares: the numbers other than NaN, as the rationals
  between the two infinities, and the strings.
\<close>

datatype xrat = Below | Mid rat | Above

instantiation xrat :: linorder
begin

definition less_eq_xrat :: "xrat \<Rightarrow> xrat \<Rightarrow> bool" where
  "less_eq_xrat x y =
     (case x of Below \<Rightarrow> True
      | Mid a \<Rightarrow> (case y of Below \<Rightarrow> False | Mid b \<Rightarrow> a \<le> b | Above \<Rightarrow> True)
      | Above \<Rightarrow> (y = Above))"

definition less_xrat :: "xrat \<Rightarrow> xrat \<Rightarrow> bool" where
  "less_xrat x y = (x \<le> y \<and> \<not> y \<le> (x :: xrat))"

instance
  by standard (auto simp: less_eq_xrat_def less_xrat_def split: xrat.splits)

end

fun sort_key_of :: "json \<Rightarrow> xrat option" where
  "sort_key_of (JBool b) = Some (Mid (if b then 1 else 0))"
| "sort_key_of (JInt i) = Some (Mid (of_int i))"
| "sort_key_of (JFloat (Fin q)) = Some (Mid q)"
| "sort_key_of (JFloat PInf) = Some Above"
| "sort_key_of (JFloat NInf) = Some Below"
| "sort_key_of _ = None"

definition the_key :: "json \<Rightarrow> xrat" where
  "the_key k = (case sort_key_of k of Some x \<Rightarrow> x | None \<Rightarrow> Mid 0)"

fun is_str :: "json \<Rightarrow> bool" where
  "is_str (JStr s) = True"
| "is_str _ = False"

fun the_str :: "json \<Rightarrow> string" where
  "the_str (JStr s) = s"
| "the_str _ = []"

text \<open>
  The kind of a key, and whether some comparison of a sort of two keys or more must
  raise: a key that no \<^verbatim>\<open><\<close> accepts (\<^verbatim>\<open>None\<close>, a dictionary), or keys of two kinds
  (every item of the list is compared with another one, and the comparisons link
  all the items).
\<close>

fun key_kind :: "json \<Rightarrow> nat" where
  "key_kind (JStr s) = 1"
| "key_kind (JList xs) = 2"
| "key_kind JNone = 3"
| "key_kind (JDict kvs) = 4"
| "key_kind _ = 0"

definition incomparable :: "json list \<Rightarrow> bool" where
  "incomparable ks =
     (list_ex (\<lambda>k. 3 \<le> key_kind k) ks \<or> list_ex (\<lambda>k. key_kind k \<noteq> key_kind (hd ks)) ks)"

text \<open>
  \<^verbatim>\<open>sorted(items, key=..., reverse=...)\<close> on the items paired with their keys. No
  comparison is made on a list of at most one item. With \<^verbatim>\<open>reverse=True\<close> CPython
  reverses the list, sorts it and reverses the result, so that equal keys keep their
  order. On keys that a linear order compares the result is the stable sort, whatever
  the length. On other keys (a NaN among the numbers, lists, keys that cannot be
  compared) the result is the one of the steps above, for fewer than 64 items; a longer
  list raises \<^verbatim>\<open>TypeError\<close> when some comparison must, and the merging of runs that
  would order it otherwise is not modelled.
\<close>

definition py_sorted :: "bool \<Rightarrow> (json \<times> 'a) list \<Rightarrow> error + 'a list" where
  "py_sorted reverse kxs =
     (if length kxs \<le> 1 then Inr (map snd kxs)
      else if list_all (\<lambda>kx. sort_key_of (fst kx) \<noteq> None) kxs then
        Inr (map snd
          (if reverse then rev (sort_key (\<lambda>kx. the_key (fst kx)) (rev kxs))
           else sort_key (\<lambda>kx. the_key (fst kx)) kxs))
      else if list_all (\<lambda>kx. is_str (fst kx)) kxs then
        Inr (map snd
          (if reverse then rev (sort_key (\<lambda>kx. the_str (fst kx)) (rev kxs))
           else sort_key (\<lambda>kx. the_str (fst kx)) kxs))
      else if length kxs < 64 then
        bindE (list_sort py_lt (if reverse then rev kxs else kxs)) (\<lambda>sorted_items.
          Inr (map snd (if reverse then rev sorted_items else sorted_items)))
      else if incomparable (map fst kxs) then Inl TypeError
      else Inl Unmodelled)"

section \<open>The retrying fetcher\<close>

text \<open>
  \<^verbatim>\<open>api_request(endpoint, params)\<close> reads the cache file of the request and returns
  its content when the file is fresh and unpickles; otherwise it tries the HTTP request
  up to three times and returns the parsed body of the first attempt that succeeds, or
  the dictionary \<^verbatim>\<open>{"error": str(last_error)}\<close> when all three fail.

  The outside world is a record of oracles, indexed by the number of the call of
  \<^verbatim>\<open>api_request\<close> within the run: what the cache holds for the request at that call,
  and how each HTTP attempt of that call ends. The endpoint is kept in pieces, the
  network as the value that the format string prints.
\<close>

datatype endpoint = Networks | NetworkPools json | Stats

type_synonym request = "endpoint \<times> (string \<times> json) list"

datatype attempt = Body json | Failure string

record world =
  cache_read :: "nat \<Rightarrow> request \<Rightarrow> json option"
  http_get :: "nat \<Rightarrow> request \<Rightarrow> nat \<Rightarrow> attempt"
  now_iso :: string

fun retry_loop :: "(nat \<Rightarrow> attempt) \<Rightarrow> nat list \<Rightarrow> string \<Rightarrow> json" where
  "retry_loop att [] last_error = JDict [(''error'', JStr last_error)]"
| "retry_loop att (a # as) last_error =
     (case att a of Body d \<Rightarrow> d | Failure e \<Rightarrow> retry_loop att as e)"

definition api_request :: "world \<Rightarrow> nat \<Rightarrow> request \<Rightarrow> json" where
  "api_request w call req =
     (case cache_read w call req of
        Some d \<Rightarrow> d
      | None \<Rightarrow> retry_loop (http_get w call req) [0, 1, 2] ''None'')"

definition get_networks :: "world \<Rightarrow> nat \<Rightarrow> json" where
  "get_networks w call = api_request w call (Networks, [])"

definition get_network_pools :: "world \<Rightarrow> nat \<Rightarrow> json \<Rightarrow> (string \<times> json) list \<Rightarrow> json" where
  "get_network_pools w call network opts = api_request w call (NetworkPools network, opts)"

definition get_system_stats :: "world \<Rightarrow> nat \<Rightarrow> json" where
  "get_system_stats w call = api_request w call (Stats, [])"

section \<open>Extraction\<close>

definition extract_pools :: "json \<Rightarrow> json" where
  "extract_pools data =
     (case data of JDict kvs \<Rightarrow> dict_get_default kvs ''pools'' (JList []) | _ \<Rightarrow> data)"

definition extract_tokens :: "json \<Rightarrow> json" where
  "extract_tokens data =
     (case data of JDict kvs \<Rightarrow> dict_get_default kvs ''tokens'' (JList []) | _ \<Rightarrow> data)"

definition extract_dexes :: "json \<Rightarrow> json" where
  "extract_dexes data =
     (case data of JDict kvs \<Rightarrow> dict_get_default kvs ''dexes'' (JList []) | _ \<Rightarrow> data)"

definition extract_transactions :: "json \<Rightarrow> json" where
  "extract_transactions data =
     (case data of JDict kvs \<Rightarrow> dict_get_default kvs ''transactions'' (JList []) | _ \<Rightarrow> data)"

definition extract_system_stats :: "json \<Rightarrow> error + json" where
  "extract_system_stats stats_data =
     bindE (item_get stats_data ''chains'' (JInt 0)) (\<lambda>chains.
     bindE (item_get stats_data ''factories'' (JInt 0)) (\<lambda>factories.
     bindE (item_get stats_data ''pools'' (JInt 0)) (\<lambda>pools.
     bindE (item_get stats_data ''tokens'' (JInt 0)) (\<lambda>tokens.
       Inr (JDict [(''chains'', chains), (''factories'', factories),
                   (''pools'', pools), (''tokens'', tokens)])))))"

section \<open>Nested lookup\<close>

text \<open>
  \<^verbatim>\<open>path.split('.')\<close>: the pieces between the dots, an empty piece where two dots
  meet or the path starts or ends with one; the empty path has the one piece \<^verbatim>\<open>''\<close>.
\<close>

fun split_dot :: "string \<Rightarrow> string list" where
  "split_dot [] = [[]]"
| "split_dot (c # cs) =
     (if c = CHR ''.'' then [] # split_dot cs
      else (case split_dot cs of [] \<Rightarrow> [[c]] | w # ws \<Rightarrow> (c # w) # ws))"

text \<open>\<^verbatim>\<open>key.isdigit()\<close> on an ASCII string, and \<^verbatim>\<open>int(key)\<close> on a string of digits.\<close>

definition isdigit :: "string \<Rightarrow> bool" where
  "isdigit s = (s \<noteq> [] \<and> list_all (\<lambda>c. c \<in> set ''0123456789'') s)"

definition digit_val :: "char \<Rightarrow> nat" where
  "digit_val c = of_char c - 48"

definition int_of_digits :: "string \<Rightarrow> nat" where
  "int_of_digits s = foldl (\<lambda>n c. 10 * n + digit_val c) 0 s"

text \<open>
  The loop of \<^verbatim>\<open>get_nested_value\<close> over the pieces of the path. Each round first
  returns \<^verbatim>\<open>None\<close> unless \<^verbatim>\<open>current\<close> is a dictionary; only then does it look at
  the piece, and for a piece of digits it asks whether \<^verbatim>\<open>current\<close> is a list.
\<close>

fun nested_loop :: "string list \<Rightarrow> json \<Rightarrow> json" where
  "nested_loop [] current = current"
| "nested_loop (key # keys) current =
     (case current of
        JDict kvs \<Rightarrow>
          (if isdigit key then
             (case current of
                JList xs \<Rightarrow>
                  (if int_of_digits key < length xs
                   then nested_loop keys (xs ! int_of_digits key) else JNone)
              | _ \<Rightarrow> JNone)
           else nested_loop keys (dict_get kvs key))
      | _ \<Rightarrow> JNone)"

definition get_nested_value :: "json \<Rightarrow> string \<Rightarrow> json" where
  "get_nested_value obj path =
     (case obj of
        JDict kvs \<Rightarrow> (if kvs = [] then JNone else nested_loop (split_dot path) obj)
      | _ \<Rightarrow> JNone)"

section \<open>Sanitation of records\<close>

text \<open>
  \<^verbatim>\<open>validate_price\<close>: the conversion sits in a \<^verbatim>\<open>try\<close> that catches
  \<^verbatim>\<open>ValueError\<close> and \<^verbatim>\<open>TypeError\<close> and nothing else.
\<close>

definition validate_price :: "parsers \<Rightarrow> json \<Rightarrow> error + num" where
  "validate_price P price =
     (case (if price = JNone then Inr (Fin 0) else py_float P price) of
        Inr n \<Rightarrow> Inr (if num_lt (Fin 0) n \<and> isfinite n then n else Fin 0)
      | Inl e \<Rightarrow> (if e = ValueError \<or> e = TypeError then Inr (Fin 0) else Inl e))"

text \<open>\<^verbatim>\<open>max(a, b)\<close> of two numbers: the second only when it is greater than the first.\<close>

definition max_float :: "num \<Rightarrow> num \<Rightarrow> num" where
  "max_float a b = (if num_lt a b then b else a)"

text \<open>
  One round of the loop of \<^verbatim>\<open>clean_pool_data\<close> on a dictionary: the cleaned copy
  when the record is kept, \<open>None\<close> when it is dropped.
\<close>

definition clean_pool :: "parsers \<Rightarrow> (string \<times> json) list \<Rightarrow> error + json option" where
  "clean_pool P pool =
     bindE (validate_price P (dict_get pool ''price_usd'')) (\<lambda>price.
     bindE (if dict_get pool ''volume_usd'' \<noteq> JNone
            then py_float P (dict_get_default pool ''volume_usd'' (JInt 0))
            else Inr (Fin 0)) (\<lambda>vol.
     bindE (if dict_get pool ''transactions'' \<noteq> JNone
            then py_int P (dict_get_default pool ''transactions'' (JInt 0))
            else Inr 0) (\<lambda>txn.
     bindE (if dict_get pool ''last_price_change_usd_24h'' = JNone then Inr (Fin 0)
            else bindE (py_float P (dict_get pool ''last_price_change_usd_24h'')) (\<lambda>c.
                   Inr (if isfinite c then c else Fin 0))) (\<lambda>change.
       let volume = max_float (Fin 0) vol;
           cleaned_pool =
             AList.update ''last_price_change_usd_24h'' (JFloat change)
               (AList.update ''transactions'' (JInt (max 0 txn))
                 (AList.update ''volume_usd'' (JFloat volume)
                   (AList.update ''price_usd'' (JFloat price) pool)))
       in Inr (if num_lt (Fin 0) price \<or> num_lt (Fin 0) volume
               then Some (JDict cleaned_pool) else None)))))"

fun clean_loop :: "parsers \<Rightarrow> json list \<Rightarrow> error + json list" where
  "clean_loop P [] = Inr []"
| "clean_loop P (pool # pools) =
     (case pool of
        JDict kvs \<Rightarrow>
          bindE (clean_pool P kvs) (\<lambda>r.
          bindE (clean_loop P pools) (\<lambda>rest.
            Inr (case r of Some c \<Rightarrow> c # rest | None \<Rightarrow> rest)))
      | _ \<Rightarrow> clean_loop P pools)"

definition clean_pool_data :: "parsers \<Rightarrow> json \<Rightarrow> error + json list" where
  "clean_pool_data P pools = (case pools of JList xs \<Rightarrow> clean_loop P xs | _ \<Rightarrow> Inr [])"

section \<open>Filters and sorting\<close>

text \<open>
  \<^verbatim>\<open>filter_by_price_change\<close> and \<^verbatim>\<open>top_n\<close> iterate over their argument without a
  test of its type; they are modelled on a list.
\<close>

definition filter_by_price_change :: "json list \<Rightarrow> json \<Rightarrow> error + json list" where
  "filter_by_price_change data min_change =
     filterE (\<lambda>item.
        bindE (item_get item ''last_price_change_usd_24h'' (JInt 0)) (\<lambda>v.
        bindE (py_abs v) (\<lambda>a. py_ge a min_change))) data"

definition validate_volume :: "parsers \<Rightarrow> json \<Rightarrow> error + num" where
  "validate_volume P volume =
     (case (if volume = JNone then Inr (Fin 0) else py_float P volume) of
        Inr n \<Rightarrow> Inr (if isfinite n \<and> num_le (Fin 0) n then n else Fin 0)
      | Inl e \<Rightarrow> (if e = ValueError \<or> e = TypeError then Inr (Fin 0) else Inl e))"

definition filter_by_volume :: "parsers \<Rightarrow> json \<Rightarrow> json \<Rightarrow> error + json list" where
  "filter_by_volume P data min_volume =
     (case data of
        JList xs \<Rightarrow>
          filterE (\<lambda>item.
            bindE (item_get item ''volume_usd'' JNone) (\<lambda>v.
            bindE (validate_volume P v) (\<lambda>n.
              py_ge n min_volume))) xs
      | _ \<Rightarrow> Inr [])"

text \<open>The key of \<^verbatim>\<open>top_n\<close>: \<^verbatim>\<open>x.get(field, 0) or 0\<close>.\<close>

definition field_key :: "string \<Rightarrow> json \<Rightarrow> error + json" where
  "field_key field x =
     bindE (item_get x field (JInt 0)) (\<lambda>v. Inr (if truthy v then v else JInt 0))"

definition top_n :: "json list \<Rightarrow> string \<Rightarrow> int \<Rightarrow> error + json list" where
  "top_n data field n =
     bindE (mapE (field_key field) data) (\<lambda>keys.
     bindE (py_sorted True (zip keys data)) (\<lambda>sorted_data.
       Inr (py_take n sorted_data)))"



definition sorted_desc :: "('a \<Rightarrow> xrat) \<Rightarrow> 'a list \<Rightarrow> 'a list" where
  "sorted_desc r xs = rev (sort_key r (rev xs))"

section \<open>Statistics\<close>

text \<open>
  \<^verbatim>\<open>detect_anomalies\<close>, on a list of records. The mean is a float (the quotient of
  \<^verbatim>\<open>/\<close> always is), so each deviation is one as well.
\<close>

definition deviation_square :: "libm \<Rightarrow> json \<Rightarrow> json \<Rightarrow> error + json" where
  "deviation_square L mean_val v =
     bindE (py_sub v mean_val) (\<lambda>d.
     bindE (as_float d) (\<lambda>x.
     bindE (float_square L x) (\<lambda>sq. Inr (JFloat sq))))"

definition is_anomaly :: "string \<Rightarrow> json \<Rightarrow> json \<Rightarrow> json \<Rightarrow> json \<Rightarrow> error + bool" where
  "is_anomaly field mean_val std_dev threshold item =
     bindE (item_get item field (JInt 0)) (\<lambda>v.
     bindE (py_sub v mean_val) (\<lambda>d.
     bindE (py_truediv d std_dev) (\<lambda>q.
     bindE (py_abs q) (\<lambda>z_score. py_gt z_score threshold))))"

definition detect_anomalies ::
  "libm \<Rightarrow> json list \<Rightarrow> string \<Rightarrow> json \<Rightarrow> error + json list" where
  "detect_anomalies L data field threshold =
     (if length data < 3 then Inr []
      else
        bindE (mapE (\<lambda>item. item_get item field (JInt 0)) data) (\<lambda>vals.
        bindE (py_sum vals) (\<lambda>total.
        bindE (py_truediv total (JInt (int (length vals)))) (\<lambda>mean_val.
        bindE (mapE (deviation_square L mean_val) vals) (\<lambda>squares.
        bindE (py_sum squares) (\<lambda>sq_total.
        bindE (py_truediv sq_total (JInt (int (length vals)))) (\<lambda>variance.
        bindE (as_float variance) (\<lambda>var.
        bindE (float_pow_half L var) (\<lambda>std_dev.
          if num_eq std_dev (Fin 0) then Inr []
          else filterE (is_anomaly field mean_val (JFloat std_dev) threshold) data)))))))))"

text \<open>
  \<^verbatim>\<open>calculate_gini_coefficient\<close>. The loop adds \<^verbatim>\<open>(i + 1) * value\<close> for the values
  in ascending order.
\<close>

fun rank_sum :: "nat \<Rightarrow> json \<Rightarrow> json list \<Rightarrow> error + json" where
  "rank_sum i cumsum [] = Inr cumsum"
| "rank_sum i cumsum (v # vs) =
     bindE (py_mul (JInt (int i + 1)) v) (\<lambda>t.
     bindE (py_add cumsum t) (\<lambda>c. rank_sum (Suc i) c vs))"

definition calculate_gini_coefficient :: "json list \<Rightarrow> error + json" where
  "calculate_gini_coefficient vals =
     (if vals = [] \<or> length vals < 2 then Inr (JInt 0)
      else
        bindE (py_sorted False (zip vals vals)) (\<lambda>sorted_values.
        let n = JInt (int (length sorted_values)) in
        bindE (rank_sum 0 (JInt 0) sorted_values) (\<lambda>cumsum.
        bindE (py_mul (JInt 2) cumsum) (\<lambda>twice.
        bindE (py_sum sorted_values) (\<lambda>total.
        bindE (py_mul n total) (\<lambda>denom.
        bindE (py_truediv twice denom) (\<lambda>left.
        bindE (py_truediv (JInt (int (length sorted_values) + 1)) n) (\<lambda>right.
          py_sub left right))))))))"

section \<open>Composite queries\<close>

definition get_top_movers ::
  "parsers \<Rightarrow> world \<Rightarrow> nat \<Rightarrow> string \<Rightarrow> int \<Rightarrow> json \<Rightarrow> error + json list" where
  "get_top_movers P w call network limit min_volume =
     (let pools = get_network_pools w call (JStr network) [(''limit'', JInt 100)];
          pool_list = extract_pools pools
      in bindE (filter_by_volume P pool_list min_volume) (\<lambda>filtered.
           top_n filtered ''last_price_change_usd_24h'' limit))"

text \<open>
  \<^verbatim>\<open>get_market_overview\<close>. The body of the loop over the first five networks is a
  \<^verbatim>\<open>try\<close> whose bare \<^verbatim>\<open>except\<close> goes on with the next network. The overview of
  the networks is a dictionary keyed by the network ids, which are values of any kind
  but a list or a dictionary; a key equal to one that is there already (\<^verbatim>\<open>1.0\<close>
  when \<^verbatim>\<open>1\<close> is there) gets its value replaced, and the key that was there stays.
\<close>

fun dict_store :: "(json \<times> json) list \<Rightarrow> json \<Rightarrow> json \<Rightarrow> (json \<times> json) list" where
  "dict_store [] k v = [(k, v)]"
| "dict_store ((k', v') # d) k v =
     (if py_eq k' k then (k', v) # d else (k', v') # dict_store d k v)"

fun volume_sum :: "json \<Rightarrow> json list \<Rightarrow> error + json" where
  "volume_sum acc [] = Inr acc"
| "volume_sum acc (pool # pools) =
     bindE (item_get pool ''volume_usd'' (JInt 0)) (\<lambda>v.
     bindE (py_add acc v) (\<lambda>acc'. volume_sum acc' pools))"

fun hashable :: "json \<Rightarrow> bool" where
  "hashable (JList xs) = False"
| "hashable (JDict kvs) = False"
| "hashable _ = True"

definition network_entry ::
  "world \<Rightarrow> nat \<Rightarrow> json \<Rightarrow> (string \<times> json) list \<Rightarrow> error + json" where
  "network_entry w call network_id network =
     (let pools = get_network_pools w call network_id [(''limit'', JInt 10)];
          pool_list = extract_pools pools
      in bindE (py_iter pool_list) (\<lambda>items.
         bindE (volume_sum (JInt 0) items) (\<lambda>total_volume.
         bindE (py_len pool_list) (\<lambda>pool_count.
           if hashable network_id then
             Inr (JDict [(''display_name'', dict_get network ''display_name''),
                         (''total_volume'', total_volume),
                         (''pool_count'', JInt (int pool_count))])
           else Inl TypeError))))"

fun overview_loop ::
  "world \<Rightarrow> nat \<Rightarrow> json list \<Rightarrow> (json \<times> json) list \<Rightarrow> error + (json \<times> json) list" where
  "overview_loop w call [] network_overview = Inr network_overview"
| "overview_loop w call (network # networks) network_overview =
     (case network of
        JDict kvs \<Rightarrow>
          (case network_entry w call (dict_get kvs ''id'') kvs of
             Inr entry \<Rightarrow>
               overview_loop w (Suc call) networks
                 (dict_store network_overview (dict_get kvs ''id'') entry)
           | Inl e \<Rightarrow> overview_loop w (Suc call) networks network_overview)
      | _ \<Rightarrow> Inl AttributeError)"

text \<open>
  \<^verbatim>\<open>networks[:5]\<close>: the first five elements of a list or characters of a string; a
  dictionary and the values without subscripts raise.
\<close>

fun first_five :: "json \<Rightarrow> error + json list" where
  "first_five (JList xs) = Inr (take 5 xs)"
| "first_five (JStr s) = Inr (map (\<lambda>c. JStr [c]) (take 5 s))"
| "first_five _ = Inl TypeError"

record overview =
  system_stats :: json
  network_overview :: "(json \<times> json) list"
  timestamp :: string

definition get_market_overview :: "world \<Rightarrow> nat \<Rightarrow> error + overview" where
  "get_market_overview w call =
     bindE (extract_system_stats (get_system_stats w call)) (\<lambda>stats_data.
     bindE (first_five (get_networks w (call + 1))) (\<lambda>networks.
     bindE (overview_loop w (call + 2) networks []) (\<lambda>nets.
       Inr \<lparr>system_stats = stats_data, network_overview = nets, timestamp = now_iso w\<rparr>)))"

section \<open>Example inputs\<close>

text \<open>
  A world where the cache is empty, the statistics and the list of networks arrive,
  and every request for the pools of a network fails.
\<close>

definition pools_down :: world where
  "pools_down =
     \<lparr>cache_read = (\<lambda>call req. None),
      http_get = (\<lambda>call req a.
        case fst req of
          Stats \<Rightarrow> Body (JDict [(''pools'', JInt 9)])
        | Networks \<Rightarrow>
            Body (JList [JDict [(''id'', JStr ''ethereum''), (''display_name'', JStr ''Ethereum'')]])
        | NetworkPools n \<Rightarrow> Failure ''timeout''),
      now_iso = ''2025-01-01T00:00:00''\<rparr>"

text \<open>Parsers that reject every string, for inputs without strings in numeric fields.\<close>

definition reject_all :: parsers where
  "reject_all = \<lparr>float_of_str = (\<lambda>s. None), int_of_str = (\<lambda>s. None)\<rparr>"

text \<open>
  A C library whose \<^verbatim>\<open>pow\<close> rounds the exact result to the nearest float, at the
  exponents 2 and 1/2.
\<close>

definition rounding_libm :: libm where
  "rounding_libm =
     \<lparr>pow = (\<lambda>a w.
        if w = 2 then (case round_double (a * a) of Fin q \<Rightarrow> Some q | _ \<Rightarrow> None)
        else if w = 1 / 2 \<and> 0 < a then Some (sqrt_double a)
        else None)\<rparr>"

text \<open>
  A world whose every answer is two pools of volume 2000000, the first with a price
  change of \<open>-50\<close>, the second with a price change of \<open>1\<close>.
\<close>

definition movers_world :: world where
  "movers_world =
     \<lparr>cache_read = (\<lambda>call req. None),
      http_get = (\<lambda>call req a.
        Body (JDict [(''pools'',
          JList [JDict [(''id'', JStr ''a''), (''volume_usd'', JInt 2000000),
                        (''last_price_change_usd_24h'', JFloat (Fin (- 50)))],
                 JDict [(''id'', JStr ''b''), (''volume_usd'', JInt 2000000),
                        (''last_price_change_usd_24h'', JFloat (Fin 1))]])])),
      now_iso = ''2025-01-01T00:00:00''\<rparr>"

section \<open>Auxiliary facts\<close>

lemma bindE_Inr_iff: "bindE m f = Inr y \<longleftrightarrow> (\<exists>x. m = Inr x \<and> f x = Inr y)"
  by (cases m) (simp_all add: bindE_def)

lemma bindE_Inr [simp]: "bindE (Inr x) f = f x"
  by (simp add: bindE_def)

lemma bindE_Inl [simp]: "bindE (Inl e) f = Inl e"
  by (simp add: bindE_def)

lemma dict_get_update: "dict_get (AList.update k v al) k' = (if k' = k then v else dict_get al k')"
  by (simp add: dict_get_def dict_get_default_def update_conv')

lemma dict_get_default_update:
  "dict_get_default (AList.update k v al) k' d = (if k' = k then v else dict_get_default al k' d)"
  by (simp add: dict_get_default_def update_conv')

lemma update_same: "dict_get al k = v \<Longrightarrow> v \<noteq> JNone \<Longrightarrow> AList.update k v al = al"
  by (rule update_triv) (auto simp: dict_get_def dict_get_default_def split: option.splits)

lemma validate_price_fix:
  "validate_price P x = Inr p \<Longrightarrow> validate_price P (JFloat p) = Inr p"
  by (auto simp: validate_price_def split: sum.splits if_splits)

lemma max_float_idem: "max_float (Fin 0) (max_float (Fin 0) v) = max_float (Fin 0) v"
  by (cases v) (auto simp: max_float_def)

lemma clean_pool_fix:
  assumes "clean_pool P pool = Inr (Some c)"
  shows "\<exists>kvs. c = JDict kvs \<and> clean_pool P kvs = Inr (Some c)"
proof -
  from assms have "\<exists>price vol txn change.
      validate_price P (dict_get pool ''price_usd'') = Inr price \<and>
      (if dict_get pool ''last_price_change_usd_24h'' = JNone then Inr (Fin 0)
       else bindE (py_float P (dict_get pool ''last_price_change_usd_24h''))
              (\<lambda>c. Inr (if isfinite c then c else Fin 0))) = Inr change \<and>
      (let volume = max_float (Fin 0) vol;
           cleaned_pool =
             AList.update ''last_price_change_usd_24h'' (JFloat change)
               (AList.update ''transactions'' (JInt (max 0 txn))
                 (AList.update ''volume_usd'' (JFloat volume)
                   (AList.update ''price_usd'' (JFloat price) pool)))
       in Inr (if num_lt (Fin 0) price \<or> num_lt (Fin 0) volume
               then Some (JDict cleaned_pool) else None)) = (Inr (Some c) :: error + json option)"
    unfolding clean_pool_def bindE_Inr_iff by blast
  then obtain price vol txn change where
    price: "validate_price P (dict_get pool ''price_usd'') = Inr price"
    and ch: "(if dict_get pool ''last_price_change_usd_24h'' = JNone then Inr (Fin 0)
       else bindE (py_float P (dict_get pool ''last_price_change_usd_24h''))
              (\<lambda>c. Inr (if isfinite c then c else Fin 0))) = Inr change"
    and res: "(if num_lt (Fin 0) price \<or> num_lt (Fin 0) (max_float (Fin 0) vol)
               then Some (JDict (AList.update ''last_price_change_usd_24h'' (JFloat change)
               (AList.update ''transactions'' (JInt (max 0 txn))
                 (AList.update ''volume_usd'' (JFloat (max_float (Fin 0) vol))
                   (AList.update ''price_usd'' (JFloat price) pool))))) else None) = Some c"
    by (auto simp: Let_def)
  from ch have change: "isfinite change"
    by (auto simp: bindE_Inr_iff split: if_splits)
  from res have keep: "num_lt (Fin 0) price \<or> num_lt (Fin 0) (max_float (Fin 0) vol)"
    and c: "c = JDict (AList.update ''last_price_change_usd_24h'' (JFloat change)
               (AList.update ''transactions'' (JInt (max 0 txn))
                 (AList.update ''volume_usd'' (JFloat (max_float (Fin 0) vol))
                   (AList.update ''price_usd'' (JFloat price) pool))))"
    by (auto split: if_splits)
  define kvs where "kvs = AList.update ''last_price_change_usd_24h'' (JFloat change)
               (AList.update ''transactions'' (JInt (max 0 txn))
                 (AList.update ''volume_usd'' (JFloat (max_float (Fin 0) vol))
                   (AList.update ''price_usd'' (JFloat price) pool)))"
  have g1: "dict_get kvs ''price_usd'' = JFloat price"
    and g2: "dict_get kvs ''volume_usd'' = JFloat (max_float (Fin 0) vol)"
    and g3: "dict_get kvs ''transactions'' = JInt (max 0 txn)"
    and g4: "dict_get kvs ''last_price_change_usd_24h'' = JFloat change"
    by (simp_all add: kvs_def dict_get_update)
  have d2: "dict_get_default kvs ''volume_usd'' (JInt 0) = JFloat (max_float (Fin 0) vol)"
    and d3: "dict_get_default kvs ''transactions'' (JInt 0) = JInt (max 0 txn)"
    by (simp_all add: kvs_def dict_get_default_update)
  have u: "AList.update ''last_price_change_usd_24h'' (JFloat change)
               (AList.update ''transactions'' (JInt (max 0 txn))
                 (AList.update ''volume_usd'' (JFloat (max_float (Fin 0) vol))
                   (AList.update ''price_usd'' (JFloat price) kvs))) = kvs"
    by (simp add: update_same g1 g2 g3 g4)
  have "clean_pool P kvs = Inr (Some (JDict kvs))"
    unfolding clean_pool_def
    using keep change
    by (simp add: g1 g2 g3 g4 d2 d3 validate_price_fix [OF price] max_float_idem u Let_def)
  with c show ?thesis by (simp add: kvs_def)
qed

lemma clean_loop_fix: "clean_loop P xs = Inr ys \<Longrightarrow> clean_loop P ys = Inr ys"
proof (induction xs arbitrary: ys)
  case Nil
  then show ?case by simp
next
  case (Cons x xs)
  show ?case
  proof (cases x)
    case (JDict kvs)
    with Cons.prems obtain r rest where
      r: "clean_pool P kvs = Inr r" and rest: "clean_loop P xs = Inr rest"
      and ys: "ys = (case r of Some c \<Rightarrow> c # rest | None \<Rightarrow> rest)"
      by (auto simp: bindE_Inr_iff)
    from Cons.IH [OF rest] have ih: "clean_loop P rest = Inr rest" .
    show ?thesis
    proof (cases r)
      case None
      with ys ih show ?thesis by simp
    next
      case (Some c)
      with r clean_pool_fix obtain kvs' where "c = JDict kvs'" "clean_pool P kvs' = Inr (Some c)"
        by blast
      with ys Some ih show ?thesis by simp
    qed
  qed (use Cons in auto)
qed




lemma sorted_desc_length [simp]: "length (sorted_desc r xs) = length xs"
  by (simp add: sorted_desc_def)

lemma sorted_desc_mset [simp]: "mset (sorted_desc r xs) = mset xs"
  by (simp add: sorted_desc_def)






text \<open>
  On keys that a linear order compares, the steps of the sort of CPython give the
  stable sort: the bisection finds the place after the last item that is not greater,
  the insertions keep the run sorted and the items of equal keys in their order, and
  a descending run has no two equal keys. So a list of 2 to 63 items is sorted by
  these steps whatever its keys.
\<close>

lemma bisect_linear:
  fixes f :: "'k \<Rightarrow> 'o::linorder"
  assumes lt: "\<And>k. k \<in> set ks \<Longrightarrow> lt p k = Inr (f p < f k)"
    and srt: "sorted (map f ks)"
  shows "l \<le> r \<Longrightarrow> r \<le> length ks \<Longrightarrow> (\<forall>i<l. f (ks ! i) \<le> f p) \<Longrightarrow>
     (\<forall>i. r \<le> i \<and> i < length ks \<longrightarrow> f p < f (ks ! i)) \<Longrightarrow>
     \<exists>m. bisect lt p ks l r = Inr m \<and> m \<le> length ks \<and> (\<forall>i<m. f (ks ! i) \<le> f p) \<and>
         (\<forall>i. m \<le> i \<and> i < length ks \<longrightarrow> f p < f (ks ! i))"
proof (induction "r - l" arbitrary: l r rule: less_induct)
  case less
  show ?case
  proof (cases "l < r")
    case False
    with less.prems have "l = r" by simp
    with less.prems show ?thesis by (subst bisect.simps) auto
  next
    case True
    define mid where "mid = l + (r - l) div 2"
    have mid: "l \<le> mid" "mid < r" using True by (auto simp: mid_def)
    with less.prems have len: "mid < length ks" by simp
    then have inset: "ks ! mid \<in> set ks" by simp
    have mono: "f (ks ! i) \<le> f (ks ! j)" if "i \<le> j" "j < length ks" for i j
      using srt that by (auto simp: sorted_iff_nth_mono dest!: spec [of _ i] spec [of _ j])
    show ?thesis
    proof (cases "f p < f (ks ! mid)")
      case T: True
      have hi: "\<forall>i. mid \<le> i \<and> i < length ks \<longrightarrow> f p < f (ks ! i)"
        using T mono by (meson less_le_trans)
      have "mid - l < r - l" using mid by simp
      from less.hyps [OF this] mid less.prems hi len
      obtain m where m: "bisect lt p ks l mid = Inr m \<and> m \<le> length ks \<and>
          (\<forall>i<m. f (ks ! i) \<le> f p) \<and> (\<forall>i. m \<le> i \<and> i < length ks \<longrightarrow> f p < f (ks ! i))"
        by auto
      have "bisect lt p ks l r = bisect lt p ks l mid"
        using True T lt [OF inset] by (subst bisect.simps) (simp add: mid_def)
      with m show ?thesis by auto
    next
      case F: False
      have lo: "\<forall>i<mid + 1. f (ks ! i) \<le> f p"
      proof (intro allI impI)
        fix i assume "i < mid + 1"
        then have "f (ks ! i) \<le> f (ks ! mid)" using mono [of i mid] len by simp
        with F show "f (ks ! i) \<le> f p" by simp
      qed
      have "r - (mid + 1) < r - l" using mid by simp
      from less.hyps [OF this] mid less.prems lo
      obtain m where m: "bisect lt p ks (mid + 1) r = Inr m \<and> m \<le> length ks \<and>
          (\<forall>i<m. f (ks ! i) \<le> f p) \<and> (\<forall>i. m \<le> i \<and> i < length ks \<longrightarrow> f p < f (ks ! i))"
        by auto
      have "bisect lt p ks l r = bisect lt p ks (mid + 1) r"
        using True F lt [OF inset] by (subst bisect.simps) (simp add: mid_def)
      with m show ?thesis by auto
    qed
  qed
qed

lemma binarysort_linear:
  fixes f :: "'k \<Rightarrow> 'o::linorder"
  assumes lt: "\<And>a b. a \<in> fst ` set (run @ rest) \<Longrightarrow> b \<in> fst ` set (run @ rest) \<Longrightarrow>
      lt a b = Inr (f a < f b)"
    and srt: "sorted (map (\<lambda>x. f (fst x)) run)"
  shows "\<exists>ys. binarysort lt run rest = Inr ys \<and> sorted (map (\<lambda>x. f (fst x)) ys) \<and>
     mset ys = mset (run @ rest) \<and>
     (\<forall>k. filter (\<lambda>x. f (fst x) = k) ys = filter (\<lambda>x. f (fst x) = k) (run @ rest))"
  using assms
proof (induction rest arbitrary: run)
  case Nil
  then show ?case by simp
next
  case (Cons x rest)
  let ?g = "\<lambda>x. f (fst x)"
  have s: "sorted (map f (map fst run))"
    using Cons.prems(2) by (simp add: comp_def)
  have l: "\<And>k. k \<in> set (map fst run) \<Longrightarrow> lt (fst x) k = Inr (f (fst x) < f k)"
    using Cons.prems(1) by auto
  have "\<exists>m. bisect lt (fst x) (map fst run) 0 (length run) = Inr m \<and> m \<le> length (map fst run) \<and>
      (\<forall>i<m. f (map fst run ! i) \<le> f (fst x)) \<and>
      (\<forall>i. m \<le> i \<and> i < length (map fst run) \<longrightarrow> f (fst x) < f (map fst run ! i))"
    by (rule bisect_linear [of "map fst run" lt "fst x" f 0 "length run", OF l s]) auto
  then obtain m where b: "bisect lt (fst x) (map fst run) 0 (length run) = Inr m"
    and m: "m \<le> length run"
    and lo': "\<forall>i<m. f (map fst run ! i) \<le> f (fst x)"
    and hi': "\<forall>i. m \<le> i \<and> i < length run \<longrightarrow> f (fst x) < f (map fst run ! i)"
    by auto
  have lo: "\<forall>i<m. ?g (run ! i) \<le> ?g x"
  proof (intro allI impI)
    fix i assume "i < m"
    with lo' m show "?g (run ! i) \<le> ?g x" by (auto dest!: spec [of _ i])
  qed
  have hi: "\<forall>i. m \<le> i \<and> i < length run \<longrightarrow> ?g x < ?g (run ! i)"
  proof (intro allI impI)
    fix i assume "m \<le> i \<and> i < length run"
    with hi' show "?g x < ?g (run ! i)" by (auto dest!: spec [of _ i])
  qed
  define run' where "run' = take m run @ x # drop m run"
  have tk: "\<forall>y \<in> set (take m run). ?g y \<le> ?g x"
  proof
    fix y assume "y \<in> set (take m run)"
    then obtain i where i: "i < m" "y = run ! i"
      by (auto simp: in_set_conv_nth)
    from lo i(1) have "?g (run ! i) \<le> ?g x" by blast
    with i(2) show "?g y \<le> ?g x" by simp
  qed
  have dr: "\<forall>y \<in> set (drop m run). ?g x < ?g y"
  proof
    fix y assume "y \<in> set (drop m run)"
    then obtain i where i: "i < length run - m" "y = run ! (m + i)"
      by (auto simp: in_set_conv_nth)
    then have "m \<le> m + i \<and> m + i < length run" by simp
    with hi have "?g x < ?g (run ! (m + i))" by blast
    with i(2) show "?g x < ?g y" by simp
  qed
  have st: "sorted (map ?g (take m run))" "sorted (map ?g (drop m run))"
    using Cons.prems(2) by (simp_all add: sorted_map sorted_wrt_take sorted_wrt_drop)
  have srt': "sorted (map ?g run')"
    using st tk dr by (fastforce simp: run'_def sorted_append)
  have fl: "filter (\<lambda>y. ?g y = k) run' = filter (\<lambda>y. ?g y = k) (run @ [x])" for k
  proof -
    have sp: "filter (\<lambda>y. ?g y = k) run
        = filter (\<lambda>y. ?g y = k) (take m run) @ filter (\<lambda>y. ?g y = k) (drop m run)"
      by (metis append_take_drop_id filter_append)
    show ?thesis
    proof (cases "?g x = k")
      case True
      with dr have "filter (\<lambda>y. ?g y = k) (drop m run) = []"
        by (auto simp: filter_empty_conv)
      with True sp show ?thesis by (simp add: run'_def)
    next
      case False
      with sp show ?thesis by (simp add: run'_def)
    qed
  qed
  have ms: "mset run' = mset (run @ [x])"
    by (simp add: run'_def) (metis append_take_drop_id mset_append union_commute add.commute)
  have set': "set (run' @ rest) = set (run @ x # rest)"
    using arg_cong [OF ms, of set_mset] by auto
  have lt': "\<And>a b. a \<in> fst ` set (run' @ rest) \<Longrightarrow> b \<in> fst ` set (run' @ rest) \<Longrightarrow>
      lt a b = Inr (f a < f b)"
    using Cons.prems(1) unfolding set' by blast
  from Cons.IH [OF lt' srt'] obtain ys where
    ys: "binarysort lt run' rest = Inr ys" "sorted (map ?g ys)" "mset ys = mset (run' @ rest)"
      "\<forall>k. filter (\<lambda>x. ?g x = k) ys = filter (\<lambda>x. ?g x = k) (run' @ rest)"
    by blast
  have "binarysort lt run (x # rest) = Inr ys"
    using b ys(1) by (simp add: run'_def)
  moreover have "mset ys = mset (run @ x # rest)"
    using ys(3) ms by simp
  moreover have "\<forall>k. filter (\<lambda>x. ?g x = k) ys = filter (\<lambda>x. ?g x = k) (run @ x # rest)"
    using ys(4) fl by simp
  ultimately show ?case using ys(2) by blast
qed

lemma run_end_ascending:
  fixes f :: "'k \<Rightarrow> 'o::linorder"
  assumes "\<And>a b. a \<in> set (prev # ks) \<Longrightarrow> b \<in> set (prev # ks) \<Longrightarrow> lt a b = Inr (f a < f b)"
  shows "\<exists>j \<le> length ks. run_end lt False prev ks n = Inr (n + j) \<and>
           sorted (map f (prev # take j ks))"
  using assms
proof (induction ks arbitrary: prev n)
  case Nil
  then show ?case by simp
next
  case (Cons k ks)
  have e: "lt k prev = Inr (f k < f prev)" using Cons.prems by simp
  show ?case
  proof (cases "f k < f prev")
    case True
    with e have "run_end lt False prev (k # ks) n = Inr (n + 0)" by simp
    then show ?thesis by (intro exI [of _ 0]) simp
  next
    case False
    have "\<And>a b. a \<in> set (k # ks) \<Longrightarrow> b \<in> set (k # ks) \<Longrightarrow> lt a b = Inr (f a < f b)"
      using Cons.prems by simp
    from Cons.IH [where n = "n + 1", OF this] obtain j where
      j: "j \<le> length ks" "run_end lt False k ks (n + 1) = Inr (n + 1 + j)"
        "sorted (map f (k # take j ks))"
      by blast
    have "run_end lt False prev (k # ks) n = Inr (n + Suc j)"
      using e False j(2) by simp
    moreover have "sorted (map f (prev # take (Suc j) (k # ks)))"
      using False j(3) by auto
    ultimately show ?thesis using j(1) by (intro exI [of _ "Suc j"]) simp
  qed
qed

lemma run_end_descending:
  fixes f :: "'k \<Rightarrow> 'o::linorder"
  assumes "\<And>a b. a \<in> set (prev # ks) \<Longrightarrow> b \<in> set (prev # ks) \<Longrightarrow> lt a b = Inr (f a < f b)"
  shows "\<exists>j \<le> length ks. run_end lt True prev ks n = Inr (n + j) \<and>
           sorted_wrt (\<lambda>a b. f b < f a) (prev # take j ks)"
  using assms
proof (induction ks arbitrary: prev n)
  case Nil
  then show ?case by simp
next
  case (Cons k ks)
  have e: "lt k prev = Inr (f k < f prev)" using Cons.prems by simp
  show ?case
  proof (cases "f k < f prev")
    case False
    with e have "run_end lt True prev (k # ks) n = Inr (n + 0)" by simp
    then show ?thesis by (intro exI [of _ 0]) simp
  next
    case True
    have "\<And>a b. a \<in> set (k # ks) \<Longrightarrow> b \<in> set (k # ks) \<Longrightarrow> lt a b = Inr (f a < f b)"
      using Cons.prems by simp
    from Cons.IH [where n = "n + 1", OF this] obtain j where
      j: "j \<le> length ks" "run_end lt True k ks (n + 1) = Inr (n + 1 + j)"
        "sorted_wrt (\<lambda>a b. f b < f a) (k # take j ks)"
      by blast
    have "run_end lt True prev (k # ks) n = Inr (n + Suc j)"
      using e True j(2) by simp
    moreover have "sorted_wrt (\<lambda>a b. f b < f a) (prev # take (Suc j) (k # ks))"
      using True j(3) by auto
    ultimately show ?thesis using j(1) by (intro exI [of _ "Suc j"]) simp
  qed
qed


lemma count_run_linear:
  fixes f :: "'k \<Rightarrow> 'o::linorder"
  assumes lt: "\<And>a b. a \<in> set ks \<Longrightarrow> b \<in> set ks \<Longrightarrow> lt a b = Inr (f a < f b)"
  shows "\<exists>n d. count_run lt ks = Inr (n, d) \<and> n \<le> length ks \<and>
           (d \<longrightarrow> sorted_wrt (\<lambda>a b. f b < f a) (take n ks)) \<and>
           (\<not> d \<longrightarrow> sorted (map f (take n ks)))"
proof (cases ks)
  case Nil
  then show ?thesis by (intro exI [of _ 0] exI [of _ False]) simp
next
  case (Cons k0 ks1)
  show ?thesis
  proof (cases ks1)
    case Nil
    with Cons show ?thesis by (intro exI [of _ 1] exI [of _ False]) simp
  next
    case (Cons k1 ks2)
    have ks: "ks = k0 # k1 # ks2"
      using \<open>ks = k0 # ks1\<close> Cons by simp
    have e: "lt k1 k0 = Inr (f k1 < f k0)"
      using lt ks by simp
    have sub: "\<And>a b. a \<in> set (k1 # ks2) \<Longrightarrow> b \<in> set (k1 # ks2) \<Longrightarrow> lt a b = Inr (f a < f b)"
      using lt ks by simp
    show ?thesis
    proof (cases "f k1 < f k0")
      case True
      from run_end_descending [of k1 ks2 lt f 2, OF sub] obtain j where
        j: "j \<le> length ks2" "run_end lt True k1 ks2 2 = Inr (2 + j)"
          "sorted_wrt (\<lambda>a b. f b < f a) (k1 # take j ks2)"
        by blast
      have "count_run lt ks = Inr (2 + j, True)"
        using e True j(2) by (simp add: ks)
      moreover have "sorted_wrt (\<lambda>a b. f b < f a) (take (2 + j) ks)"
        using True j(3) by (auto simp: ks)
      ultimately show ?thesis using j(1) by (auto simp: ks)
    next
      case False
      from run_end_ascending [of k1 ks2 lt f 2, OF sub] obtain j where
        j: "j \<le> length ks2" "run_end lt False k1 ks2 2 = Inr (2 + j)"
          "sorted (map f (k1 # take j ks2))"
        by blast
      have "count_run lt ks = Inr (2 + j, False)"
        using e False j(2) by (simp add: ks)
      moreover have "sorted (map f (take (2 + j) ks))"
        using False j(3) by (auto simp: ks)
      ultimately show ?thesis using j(1) by (auto simp: ks)
    qed
  qed
qed

lemma filter_rev_descending:
  fixes g :: "'a \<Rightarrow> 'o::linorder"
  shows "sorted_wrt (\<lambda>a b. g b < g a) xs \<Longrightarrow>
    filter (\<lambda>x. g x = k) (rev xs) = filter (\<lambda>x. g x = k) xs"
proof (induction xs)
  case Nil
  then show ?case by simp
next
  case (Cons x xs)
  then have ih: "filter (\<lambda>x. g x = k) (rev xs) = filter (\<lambda>x. g x = k) xs"
    and below: "\<forall>y \<in> set xs. g y < g x"
    by simp_all
  show ?case
  proof (cases "g x = k")
    case True
    with below have "filter (\<lambda>x. g x = k) xs = []"
      by (auto simp: filter_empty_conv)
    with True ih show ?thesis by simp
  next
    case False
    with ih show ?thesis by simp
  qed
qed

lemma list_sort_linear:
  fixes f :: "'k \<Rightarrow> 'o::linorder"
  assumes lt: "\<And>a b. a \<in> fst ` set kxs \<Longrightarrow> b \<in> fst ` set kxs \<Longrightarrow> lt a b = Inr (f a < f b)"
  shows "list_sort lt kxs = Inr (sort_key (\<lambda>x. f (fst x)) kxs)"
proof -
  let ?g = "\<lambda>x. f (fst x)"
  have l: "\<And>a b. a \<in> set (map fst kxs) \<Longrightarrow> b \<in> set (map fst kxs) \<Longrightarrow> lt a b = Inr (f a < f b)"
    using lt by simp
  from count_run_linear [of "map fst kxs" lt f, OF l] obtain n d where
    c: "count_run lt (map fst kxs) = Inr (n, d)" and n: "n \<le> length kxs"
    and desc: "d \<longrightarrow> sorted_wrt (\<lambda>a b. f b < f a) (take n (map fst kxs))"
    and asc: "\<not> d \<longrightarrow> sorted (map f (take n (map fst kxs)))"
    by auto
  define run where "run = (if d then rev (take n kxs) else take n kxs)"
  have srt: "sorted (map ?g run)"
  proof (cases d)
    case True
    with desc have "sorted_wrt (\<lambda>a b. ?g b < ?g a) (take n kxs)"
      by (simp add: take_map sorted_wrt_map)
    then have "sorted_wrt (\<lambda>a b. ?g a < ?g b) (rev (take n kxs))"
      by (simp add: sorted_wrt_rev)
    then have "sorted_wrt (\<lambda>a b. ?g a \<le> ?g b) (rev (take n kxs))"
      by (rule sorted_wrt_mono_rel [rotated]) simp
    with True show ?thesis by (simp add: run_def sorted_map)
  next
    case False
    with asc show ?thesis by (simp add: run_def take_map comp_def)
  qed
  have fl: "filter (\<lambda>x. ?g x = k) run = filter (\<lambda>x. ?g x = k) (take n kxs)" for k
  proof (cases d)
    case True
    with desc have "sorted_wrt (\<lambda>a b. ?g b < ?g a) (take n kxs)"
      by (simp add: take_map sorted_wrt_map)
    from filter_rev_descending [OF this] True show ?thesis by (simp add: run_def)
  next
    case False
    then show ?thesis by (simp add: run_def)
  qed
  have ms: "mset run = mset (take n kxs)"
    by (simp add: run_def)
  have st: "set (run @ drop n kxs) = set kxs"
  proof -
    have "set (run @ drop n kxs) = set (take n kxs) \<union> set (drop n kxs)"
      by (simp add: run_def)
    also have "\<dots> = set (take n kxs @ drop n kxs)"
      by (simp only: set_append)
    also have "\<dots> = set kxs"
      by (simp only: append_take_drop_id)
    finally show ?thesis .
  qed
  have lt': "\<And>a b. a \<in> fst ` set (run @ drop n kxs) \<Longrightarrow> b \<in> fst ` set (run @ drop n kxs) \<Longrightarrow>
      lt a b = Inr (f a < f b)"
    using lt unfolding st by blast
  from binarysort_linear [of run "drop n kxs" lt f, OF lt' srt] obtain ys where
    ys: "binarysort lt run (drop n kxs) = Inr ys" "sorted (map ?g ys)"
      "mset ys = mset (run @ drop n kxs)"
      "\<forall>k. filter (\<lambda>x. ?g x = k) ys = filter (\<lambda>x. ?g x = k) (run @ drop n kxs)"
    by blast
  have m: "mset ys = mset kxs"
  proof -
    have "mset ys = mset (take n kxs) + mset (drop n kxs)"
      using ys(3) ms by simp
    also have "\<dots> = mset (take n kxs @ drop n kxs)"
      by (simp only: mset_append)
    also have "\<dots> = mset kxs"
      by (simp only: append_take_drop_id)
    finally show ?thesis .
  qed
  have f: "filter (\<lambda>x. ?g x = k) ys = filter (\<lambda>x. ?g x = k) kxs" for k
  proof -
    have "filter (\<lambda>x. ?g x = k) ys
        = filter (\<lambda>x. ?g x = k) (take n kxs) @ filter (\<lambda>x. ?g x = k) (drop n kxs)"
      using ys(4) fl by simp
    also have "\<dots> = filter (\<lambda>x. ?g x = k) (take n kxs @ drop n kxs)"
      by (simp only: filter_append)
    also have "\<dots> = filter (\<lambda>x. ?g x = k) kxs"
      by (simp only: append_take_drop_id)
    finally show ?thesis .
  qed
  have "sort_key ?g kxs = ys"
  proof (rule properties_for_sort_key)
    show "mset ys = mset kxs" by (rule m)
    show "sorted (map ?g ys)" by (rule ys(2))
    show "filter (\<lambda>x. ?g k = ?g x) ys = filter (\<lambda>x. ?g k = ?g x) kxs" if "k \<in> set ys" for k
      using f [of "?g k"] by (simp add: eq_commute)
  qed
  moreover have "list_sort lt kxs = Inr ys"
    using c ys(1) by (simp add: list_sort_def run_def)
  ultimately show ?thesis by simp
qed

lemma py_lt_orderable:
  "sort_key_of a = Some x \<Longrightarrow> sort_key_of b = Some y \<Longrightarrow> py_lt a b = Inr (x < y)"
  by (cases a rule: sort_key_of.cases; cases b rule: sort_key_of.cases)
    (auto simp: lt_num_def less_xrat_def less_eq_xrat_def split: if_splits)

lemma list_sort_orderable:
  assumes "list_all (\<lambda>kx. sort_key_of (fst kx) \<noteq> None) kxs"
  shows "list_sort py_lt kxs = Inr (sort_key (\<lambda>kx. the_key (fst kx)) kxs)"
proof (rule list_sort_linear)
  fix a b assume "a \<in> fst ` set kxs" "b \<in> fst ` set kxs"
  with assms have "sort_key_of a \<noteq> None" "sort_key_of b \<noteq> None"
    by (auto simp: list_all_iff)
  then obtain x y where "sort_key_of a = Some x" "sort_key_of b = Some y"
    by auto
  then show "py_lt a b = Inr (the_key a < the_key b)"
    by (simp add: py_lt_orderable the_key_def)
qed

lemma list_sort_strings:
  assumes "list_all (\<lambda>kx. is_str (fst kx)) kxs"
  shows "list_sort py_lt kxs = Inr (sort_key (\<lambda>kx. the_str (fst kx)) kxs)"
proof (rule list_sort_linear)
  fix a b assume "a \<in> fst ` set kxs" "b \<in> fst ` set kxs"
  with assms have "is_str a" "is_str b"
    by (auto simp: list_all_iff)
  then show "py_lt a b = Inr (the_str a < the_str b)"
    by (cases a; cases b) simp_all
qed


lemma py_sorted_short:
  assumes "1 < length kxs" and "length kxs < 64"
  shows "py_sorted reverse kxs =
     bindE (list_sort py_lt (if reverse then rev kxs else kxs)) (\<lambda>sorted_items.
       Inr (map snd (if reverse then rev sorted_items else sorted_items)))"
proof -
  let ?in = "if reverse then rev kxs else kxs"
  have all: "list_all P ?in = list_all P kxs" for P :: "json \<times> 'a \<Rightarrow> bool"
    by (simp add: list_all_iff)
  show ?thesis
  proof (cases "list_all (\<lambda>kx. sort_key_of (fst kx) \<noteq> None) kxs")
    case True
    then have "list_all (\<lambda>kx. sort_key_of (fst kx) \<noteq> None) ?in"
      by (simp only: all)
    from list_sort_orderable [OF this] True assms show ?thesis
      by (simp add: py_sorted_def)
  next
    case False
    show ?thesis
    proof (cases "list_all (\<lambda>kx. is_str (fst kx)) kxs")
      case True
      then have "list_all (\<lambda>kx. is_str (fst kx)) ?in"
        by (simp only: all)
      from list_sort_strings [OF this] True False assms show ?thesis
        by (simp add: py_sorted_def)
    next
      case F: False
      with False assms show ?thesis
        by (simp add: py_sorted_def)
    qed
  qed
qed

text \<open>
  The arithmetic of \<^verbatim>\<open>detect_anomalies\<close> on three records whose value is the float
  0.1, that is \<open>3602879701896397 / 2^55\<close>: the sum, the mean, the deviation of the
  value from the mean, the sum and the mean of three squares \<open>2^-112\<close>, and the
  test of a record against the standard deviation \<open>2^-56\<close>.
\<close>

lemma tenth_sum:
  "py_sum [JFloat (Fin (3602879701896397 / 36028797018963968)), JFloat (Fin (3602879701896397 / 36028797018963968)), JFloat (Fin (3602879701896397 / 36028797018963968))]
   = Inr (JFloat (Fin (1351079888211149 / 4503599627370496)))"
  by code_simp

lemma tenth_mean:
  "py_truediv (JFloat (Fin (1351079888211149 / 4503599627370496))) (JInt 3)
   = Inr (JFloat (Fin (7205759403792795 / 72057594037927936)))"
  by code_simp

lemma tenth_deviation:
  "py_sub (JFloat (Fin (3602879701896397 / 36028797018963968)))
     (JFloat (Fin (7205759403792795 / 72057594037927936)))
   = Inr (JFloat (Fin (- (1 / 72057594037927936))))"
  by code_simp

lemma squares_sum:
  "py_sum [JFloat (Fin (1 / 5192296858534827628530496329220096)),
     JFloat (Fin (1 / 5192296858534827628530496329220096)),
     JFloat (Fin (1 / 5192296858534827628530496329220096))]
   = Inr (JFloat (Fin (3 / 5192296858534827628530496329220096)))"
  by code_simp

lemma squares_mean:
  "py_truediv (JFloat (Fin (3 / 5192296858534827628530496329220096))) (JInt 3)
   = Inr (JFloat (Fin (1 / 5192296858534827628530496329220096)))"
  by code_simp

lemma tenth_is_anomaly:
  "is_anomaly ''x'' (JFloat (Fin (7205759403792795 / 72057594037927936)))
     (JFloat (Fin (1 / 72057594037927936))) (JFloat (Fin (1 / 2)))
     (JDict [(''x'', JFloat (Fin (3602879701896397 / 36028797018963968)))]) = Inr True"
  by code_simp

section \<open>Results\<close>

text \<open>
  C1. The lookup is meant to step into a list at a numeric piece of the path. On the
  object \<^verbatim>\<open>{"tokens": [{"symbol": "ETH"}]}\<close> and the path \<^verbatim>\<open>tokens.0.symbol\<close> the
  list is reached after the first piece, and the round for the piece \<^verbatim>\<open>0\<close> returns
  \<^verbatim>\<open>None\<close> because the list is not a dictionary: the symbol is never found.
\<close>

theorem get_nested_value_list_index_lost:
  "get_nested_value (JDict [(''tokens'', JList [JDict [(''symbol'', JStr ''ETH'')]])])
     ''tokens.0.symbol'' = JNone"
  by (simp add: get_nested_value_def dict_get_def dict_get_default_def isdigit_def)

text \<open>
  C2. \<^verbatim>\<open>clean_pool_data\<close> converts \<^verbatim>\<open>volume_usd\<close> outside any \<^verbatim>\<open>try\<close> and keeps
  the greater of 0.0 and the result. A volume that \<^verbatim>\<open>float\<close> cannot parse, here the
  string \<^verbatim>\<open>N/A\<close>, raises \<^verbatim>\<open>ValueError\<close> out of the function, and an infinite volume
  stays in the record that is kept.
\<close>

theorem clean_pool_data_volume_not_sanitized:
  "(float_of_str P ''N/A'' = None \<longrightarrow>
      clean_pool_data P
        (JList [JDict [(''price_usd'', JFloat (Fin (3 / 2))), (''volume_usd'', JStr ''N/A'')]])
      = Inl ValueError) \<and>
   clean_pool_data P (JList [JDict [(''volume_usd'', JFloat PInf)]]) =
     Inr [JDict [(''volume_usd'', JFloat PInf), (''price_usd'', JFloat (Fin 0)),
                 (''transactions'', JInt 0), (''last_price_change_usd_24h'', JFloat (Fin 0))]]"
  by (simp add: clean_pool_data_def clean_pool_def validate_price_def dict_get_def
      dict_get_default_def max_float_def)

theorem clean_pool_data_volume_not_sanitized_witness:
  "float_of_str \<lparr>float_of_str = (\<lambda>s. None), int_of_str = (\<lambda>s. None)\<rparr> ''N/A'' = None \<and>
   clean_pool_data \<lparr>float_of_str = (\<lambda>s. None), int_of_str = (\<lambda>s. None)\<rparr>
     (JList [JDict [(''price_usd'', JFloat (Fin (3 / 2))), (''volume_usd'', JStr ''N/A'')]])
   = Inl ValueError"
  using clean_pool_data_volume_not_sanitized
    [of "\<lparr>float_of_str = (\<lambda>s. None), int_of_str = (\<lambda>s. None)\<rparr>"]
  by simp

text \<open>
  C3. \<^verbatim>\<open>get_top_movers\<close> is to return the pools with the biggest price changes, and it
  ranks by the signed value of the change, not by its magnitude. Of the two pools of
  the example, which both pass the cleaning and the volume filter, the one with a
  change of \<open>-50\<close> has the greater magnitude, and the top one returned is the pool
  with the change of \<open>1\<close>.
\<close>

theorem get_top_movers_ranks_signed_change:
  "get_top_movers reject_all movers_world 0 ''ethereum'' 1 (JInt 1000000) =
     Inr [JDict [(''id'', JStr ''b''), (''volume_usd'', JInt 2000000),
                 (''last_price_change_usd_24h'', JFloat (Fin 1))]] \<and>
   extract_pools (get_network_pools movers_world 0 (JStr ''ethereum'') [(''limit'', JInt 100)]) =
     JList [JDict [(''id'', JStr ''a''), (''volume_usd'', JInt 2000000),
                   (''last_price_change_usd_24h'', JFloat (Fin (- 50)))],
            JDict [(''id'', JStr ''b''), (''volume_usd'', JInt 2000000),
                   (''last_price_change_usd_24h'', JFloat (Fin 1))]] \<and>
   clean_pool_data reject_all
     (extract_pools (get_network_pools movers_world 0 (JStr ''ethereum'') [(''limit'', JInt 100)])) =
     Inr [JDict [(''id'', JStr ''a''), (''volume_usd'', JFloat (Fin 2000000)),
                 (''last_price_change_usd_24h'', JFloat (Fin (- 50))),
                 (''price_usd'', JFloat (Fin 0)), (''transactions'', JInt 0)],
          JDict [(''id'', JStr ''b''), (''volume_usd'', JFloat (Fin 2000000)),
                 (''last_price_change_usd_24h'', JFloat (Fin 1)),
                 (''price_usd'', JFloat (Fin 0)), (''transactions'', JInt 0)]] \<and>
   filter_by_volume reject_all
     (extract_pools (get_network_pools movers_world 0 (JStr ''ethereum'') [(''limit'', JInt 100)]))
     (JInt 1000000) =
     Inr [JDict [(''id'', JStr ''a''), (''volume_usd'', JInt 2000000),
                 (''last_price_change_usd_24h'', JFloat (Fin (- 50)))],
          JDict [(''id'', JStr ''b''), (''volume_usd'', JInt 2000000),
                 (''last_price_change_usd_24h'', JFloat (Fin 1))]] \<and>
   py_abs (JFloat (Fin (- 50))) = Inr (Fin 50) \<and>
   py_abs (JFloat (Fin 1)) = Inr (Fin 1) \<and>
   num_lt (Fin 1) (Fin 50)"
  by code_simp

text \<open>
  C4. When the request for the pools of a network fails three times, \<^verbatim>\<open>api_request\<close>
  returns the dictionary with the key \<^verbatim>\<open>error\<close> and raises nothing, so the
  \<^verbatim>\<open>except\<close> of \<^verbatim>\<open>get_market_overview\<close> is not reached: the network is reported
  with a total volume of 0 and 0 pools.
\<close>

theorem get_market_overview_reports_failed_network:
  "get_market_overview pools_down 0 =
     Inr \<lparr>system_stats =
            JDict [(''chains'', JInt 0), (''factories'', JInt 0),
                   (''pools'', JInt 9), (''tokens'', JInt 0)],
          network_overview =
            [(JStr ''ethereum'',
              JDict [(''display_name'', JStr ''Ethereum''),
                     (''total_volume'', JInt 0), (''pool_count'', JInt 0)])],
          timestamp = ''2025-01-01T00:00:00''\<rparr>"
  by code_simp

text \<open>
  C5. On two values that sum to 0 the denominator \<^verbatim>\<open>n * sum(sorted_values)\<close> is 0
  and the division raises \<^verbatim>\<open>ZeroDivisionError\<close>.
\<close>

theorem calculate_gini_coefficient_zero_sum:
  "calculate_gini_coefficient [JInt 0, JInt 0] = Inl ZeroDivisionError"
  by code_simp

text \<open>
  C6. \<^verbatim>\<open>filter_by_price_change\<close> takes \<^verbatim>\<open>abs\<close> of the field as it is: on a record
  whose \<^verbatim>\<open>last_price_change_usd_24h\<close> is \<^verbatim>\<open>None\<close> it raises \<^verbatim>\<open>TypeError\<close>.
\<close>

theorem filter_by_price_change_raises:
  "filter_by_price_change [JDict [(''last_price_change_usd_24h'', JNone)]] (JFloat (Fin 1))
     = Inl TypeError"
  by code_simp





text \<open>
  C8. Three records whose value is the float 0.1 are a constant dataset, for which
  the test \<^verbatim>\<open>std_dev == 0\<close> is meant to answer the empty list. The sum of the three
  values rounds to \<open>0.30000000000000004\<close> and the mean to \<open>0.10000000000000002\<close>,
  so every value lies \<open>2^-56\<close> below the mean. With a \<^verbatim>\<open>pow\<close> that is exact on
  these two powers of two (the square of \<open>2^-56\<close>, the root of \<open>2^-112\<close>) the standard
  deviation is \<open>2^-56\<close>, not 0, every z-score is 1, and with the threshold 0.5 all the
  three identical records are reported as anomalies.
\<close>

theorem detect_anomalies_identical_floats_reported:
  assumes sq: "pow L (1 / 72057594037927936) 2 = Some (1 / 5192296858534827628530496329220096)"
    and rt: "pow L (1 / 5192296858534827628530496329220096) (1 / 2) = Some (1 / 72057594037927936)"
  shows "detect_anomalies L
     [JDict [(''x'', JFloat (Fin (3602879701896397 / 36028797018963968)))],
      JDict [(''x'', JFloat (Fin (3602879701896397 / 36028797018963968)))],
      JDict [(''x'', JFloat (Fin (3602879701896397 / 36028797018963968)))]]
     ''x'' (JFloat (Fin (1 / 2))) =
   Inr [JDict [(''x'', JFloat (Fin (3602879701896397 / 36028797018963968)))],
        JDict [(''x'', JFloat (Fin (3602879701896397 / 36028797018963968)))],
        JDict [(''x'', JFloat (Fin (3602879701896397 / 36028797018963968)))]]"
proof -
  let ?v = "JFloat (Fin (3602879701896397 / 36028797018963968))"
  let ?mean = "JFloat (Fin (7205759403792795 / 72057594037927936))"
  let ?sq = "JFloat (Fin (1 / 5192296858534827628530496329220096))"
  have get: "item_get (JDict [(''x'', ?v)]) ''x'' (JInt 0) = Inr ?v"
    by (simp add: item_get_def dict_get_default_def)
  have dev: "deviation_square L ?mean ?v = Inr ?sq"
    by (simp add: deviation_square_def tenth_deviation float_pow_def sq)
  have root: "float_pow L (1 / 5192296858534827628530496329220096) (1 / 2)
      = Inr (Fin (1 / 72057594037927936))"
    by (simp add: float_pow_def rt)
  show ?thesis
    by (simp add: detect_anomalies_def get tenth_sum tenth_mean dev squares_sum squares_mean
        root tenth_is_anomaly)
qed

theorem detect_anomalies_identical_floats_reported_witness:
  "pow rounding_libm (1 / 72057594037927936) 2 = Some (1 / 5192296858534827628530496329220096) \<and>
   pow rounding_libm (1 / 5192296858534827628530496329220096) (1 / 2)
     = Some (1 / 72057594037927936) \<and>
   detect_anomalies rounding_libm
     [JDict [(''x'', JFloat (Fin (3602879701896397 / 36028797018963968)))],
      JDict [(''x'', JFloat (Fin (3602879701896397 / 36028797018963968)))],
      JDict [(''x'', JFloat (Fin (3602879701896397 / 36028797018963968)))]]
     ''x'' (JFloat (Fin (1 / 2))) =
   Inr [JDict [(''x'', JFloat (Fin (3602879701896397 / 36028797018963968)))],
        JDict [(''x'', JFloat (Fin (3602879701896397 / 36028797018963968)))],
        JDict [(''x'', JFloat (Fin (3602879701896397 / 36028797018963968)))]]"
proof -
  have sq: "pow rounding_libm (1 / 72057594037927936) 2
      = Some (1 / 5192296858534827628530496329220096)"
    by code_simp
  have rt: "pow rounding_libm (1 / 5192296858534827628530496329220096) (1 / 2)
      = Some (1 / 72057594037927936)"
    by code_simp
  from detect_anomalies_identical_floats_reported [OF sq rt] sq rt show ?thesis
    by (intro conjI)
qed

text \<open>
  C9. Cleaning is idempotent: cleaning the cleaned list gives the cleaned list, and
  when the first cleaning raises, so does the composition, with the same exception.
\<close>

theorem clean_pool_data_idempotent:
  "bindE (clean_pool_data P x) (\<lambda>ys. clean_pool_data P (JList ys)) = clean_pool_data P x"
proof (cases "clean_pool_data P x")
  case (Inl e)
  then show ?thesis by simp
next
  case (Inr ys)
  then have "clean_pool_data P (JList ys) = Inr ys"
    by (cases x) (auto simp: clean_pool_data_def dest: clean_loop_fix)
  with Inr show ?thesis by simp
qed


text \<open>
  C10. On a dictionary without the named array field each of the four extractors
  returns the empty list; the dictionary that \<^verbatim>\<open>api_request\<close> returns when the cache
  has nothing and all three attempts fail is such a dictionary.
\<close>

theorem extract_missing_field_empty:
  "(map_of kvs ''pools'' = None \<longrightarrow> extract_pools (JDict kvs) = JList []) \<and>
   (map_of kvs ''tokens'' = None \<longrightarrow> extract_tokens (JDict kvs) = JList []) \<and>
   (map_of kvs ''dexes'' = None \<longrightarrow> extract_dexes (JDict kvs) = JList []) \<and>
   (map_of kvs ''transactions'' = None \<longrightarrow> extract_transactions (JDict kvs) = JList []) \<and>
   (cache_read w call req = None \<and> (\<forall>a < 3. \<exists>e. http_get w call req a = Failure e) \<longrightarrow>
      (\<exists>e. api_request w call req = JDict [(''error'', JStr e)]) \<and>
      extract_pools (api_request w call req) = JList [] \<and>
      extract_tokens (api_request w call req) = JList [] \<and>
      extract_dexes (api_request w call req) = JList [] \<and>
      extract_transactions (api_request w call req) = JList [])"
proof -
  have miss: "\<And>k. map_of kvs k = None \<Longrightarrow> dict_get_default kvs k (JList []) = JList []"
    by (simp add: dict_get_default_def)
  have fail: "\<exists>e. api_request w call req = JDict [(''error'', JStr e)]"
    if c: "cache_read w call req = None"
      and f: "\<forall>a < 3. \<exists>e. http_get w call req a = Failure e"
  proof -
    from f obtain e0 where e0: "http_get w call req 0 = Failure e0" by fastforce
    from f obtain e1 where e1: "http_get w call req (Suc 0) = Failure e1" by fastforce
    from f obtain e2 where e2: "http_get w call req 2 = Failure e2" by fastforce
    show ?thesis by (simp add: api_request_def c e0 e1 e2)
  qed
  show ?thesis
    using fail
    by (auto simp: miss extract_pools_def extract_tokens_def extract_dexes_def
        extract_transactions_def dict_get_default_def)
qed

theorem extract_missing_field_empty_witness:
  "map_of [(''error'', JStr ''timeout'')] ''pools'' = None \<and>
   map_of [(''error'', JStr ''timeout'')] ''tokens'' = None \<and>
   map_of [(''error'', JStr ''timeout'')] ''dexes'' = None \<and>
   map_of [(''error'', JStr ''timeout'')] ''transactions'' = None \<and>
   extract_pools (JDict [(''error'', JStr ''timeout'')]) = JList [] \<and>
   extract_tokens (JDict [(''error'', JStr ''timeout'')]) = JList [] \<and>
   extract_dexes (JDict [(''error'', JStr ''timeout'')]) = JList [] \<and>
   extract_transactions (JDict [(''error'', JStr ''timeout'')]) = JList [] \<and>
   cache_read \<lparr>cache_read = (\<lambda>c r. None), http_get = (\<lambda>c r a. Failure ''timeout''),
      now_iso = ''2025''\<rparr> 0 (NetworkPools (JStr ''ethereum''), []) = None \<and>
   http_get \<lparr>cache_read = (\<lambda>c r. None), http_get = (\<lambda>c r a. Failure ''timeout''),
      now_iso = ''2025''\<rparr> 0 (NetworkPools (JStr ''ethereum''), []) 2 = Failure ''timeout'' \<and>
   extract_pools
     (api_request \<lparr>cache_read = (\<lambda>c r. None), http_get = (\<lambda>c r a. Failure ''timeout''),
        now_iso = ''2025''\<rparr> 0 (NetworkPools (JStr ''ethereum''), [])) = JList []"
  using extract_missing_field_empty
    [of "[(''error'', JStr ''timeout'')]"
        "\<lparr>cache_read = (\<lambda>c r. None), http_get = (\<lambda>c r a. Failure ''timeout''),
           now_iso = ''2025''\<rparr>"
        0 "(NetworkPools (JStr ''ethereum''), [])"]
  by simp

end
